theory Spec2Isabelle
  imports Main "HOL-Library.Multiset" "HOL-Library.Word"
begin

section \<open>Abstract values\<close>

text \<open>
  The collector and the analyzer hooks of \<^verbatim>\<open>ConstantPropagationWholeProgramState.cpp\<close>
  use the abstract value domain \<^verbatim>\<open>ConstantValue\<close> only through \<^verbatim>\<open>top()\<close>,
  \<^verbatim>\<open>bottom()\<close>, \<^verbatim>\<open>is_top()\<close> and \<^verbatim>\<open>join_with\<close>. The domain itself is defined
  outside this source file, so every definition below is polymorphic in a type \<open>'v\<close> of sort
  \<open>bounded_lattice\<close>: \<open>sup\<close> is \<^verbatim>\<open>join_with\<close>, \<open>top\<close> is \<^verbatim>\<open>ConstantValue::top()\<close> and
  \<open>bot\<close> is \<^verbatim>\<open>ConstantValue::bottom()\<close>. The class laws are the contract the specification
  states for the lattice (join commutative, associative and idempotent, with
  \<open>join a top = top\<close> and \<open>join a bottom = a\<close>).

  The flat constant domain below is one instance of that contract. It is used for the
  worked examples only; no general theorem depends on it.
\<close>

datatype FlatConstant = Bottom | Constant int | Top

instantiation FlatConstant :: bounded_lattice
begin

definition bot_FlatConstant :: FlatConstant where
  "bot_FlatConstant = Bottom"

definition top_FlatConstant :: FlatConstant where
  "top_FlatConstant = Top"

fun sup_FlatConstant :: "FlatConstant \<Rightarrow> FlatConstant \<Rightarrow> FlatConstant" where
  "sup_FlatConstant Bottom y = y"
| "sup_FlatConstant x Bottom = x"
| "sup_FlatConstant Top y = Top"
| "sup_FlatConstant x Top = Top"
| "sup_FlatConstant (Constant a) (Constant b) = (if a = b then Constant a else Top)"

fun inf_FlatConstant :: "FlatConstant \<Rightarrow> FlatConstant \<Rightarrow> FlatConstant" where
  "inf_FlatConstant Top y = y"
| "inf_FlatConstant x Top = x"
| "inf_FlatConstant Bottom y = Bottom"
| "inf_FlatConstant x Bottom = Bottom"
| "inf_FlatConstant (Constant a) (Constant b) = (if a = b then Constant a else Bottom)"

definition less_eq_FlatConstant :: "FlatConstant \<Rightarrow> FlatConstant \<Rightarrow> bool" where
  "less_eq_FlatConstant x y \<longleftrightarrow> sup x y = y"

definition less_FlatConstant :: "FlatConstant \<Rightarrow> FlatConstant \<Rightarrow> bool" where
  "less_FlatConstant x y \<longleftrightarrow> sup x y = y \<and> sup y x \<noteq> x"

instance
proof
  fix x y z :: FlatConstant
  show "(x < y) = (x \<le> y \<and> \<not> y \<le> x)"
    by (simp add: less_FlatConstant_def less_eq_FlatConstant_def)
  show "x \<le> x"
    by (cases x) (simp_all add: less_eq_FlatConstant_def)
  show "x \<le> y \<Longrightarrow> y \<le> z \<Longrightarrow> x \<le> z"
    by (cases x; cases y; cases z) (auto simp: less_eq_FlatConstant_def split: if_splits)
  show "x \<le> y \<Longrightarrow> y \<le> x \<Longrightarrow> x = y"
    by (cases x; cases y) (auto simp: less_eq_FlatConstant_def split: if_splits)
  show "inf x y \<le> x"
    by (cases x; cases y) (auto simp: less_eq_FlatConstant_def)
  show "inf x y \<le> y"
    by (cases x; cases y) (auto simp: less_eq_FlatConstant_def)
  show "x \<le> y \<Longrightarrow> x \<le> z \<Longrightarrow> x \<le> inf y z"
    by (cases x; cases y; cases z) (auto simp: less_eq_FlatConstant_def split: if_splits)
  show "x \<le> sup x y"
    by (cases x; cases y) (auto simp: less_eq_FlatConstant_def)
  show "y \<le> sup x y"
    by (cases x; cases y) (auto simp: less_eq_FlatConstant_def)
  show "y \<le> x \<Longrightarrow> z \<le> x \<Longrightarrow> sup y z \<le> x"
    by (cases x; cases y; cases z) (auto simp: less_eq_FlatConstant_def split: if_splits)
  show "bot \<le> x"
    by (cases x) (simp_all add: less_eq_FlatConstant_def bot_FlatConstant_def)
  show "x \<le> top"
    by (cases x) (simp_all add: less_eq_FlatConstant_def top_FlatConstant_def)
qed

end

section \<open>Partitions\<close>

text \<open>
  Modelled from the spec: the partition type (\<^verbatim>\<open>ConstantFieldPartition\<close>,
  \<^verbatim>\<open>ConstantMethodPartition\<close>) is declared outside this source file. The specification
  describes it as a mapping from an entity to an abstract value that defaults absent
  entries to Bottom, with the invariant that a key is absent exactly when its value is
  Bottom, and with point-wise updates. \<open>partition_get\<close>, \<open>partition_set\<close> and
  \<open>partition_update\<close> stand for its \<^verbatim>\<open>get\<close>, \<^verbatim>\<open>set\<close> and \<^verbatim>\<open>update\<close>.
\<close>

type_synonym ('k, 'v) Partition = "'k \<rightharpoonup> 'v"

definition partition_get :: "('k, 'v::bounded_lattice) Partition \<Rightarrow> 'k \<Rightarrow> 'v" where
  "partition_get p k = (case p k of None \<Rightarrow> bot | Some v \<Rightarrow> v)"

definition partition_set ::
  "'k \<Rightarrow> 'v::bounded_lattice \<Rightarrow> ('k, 'v) Partition \<Rightarrow> ('k, 'v) Partition" where
  "partition_set k v p = (if v = bot then p(k := None) else p(k \<mapsto> v))"

definition partition_update ::
  "'k \<Rightarrow> ('v::bounded_lattice \<Rightarrow> 'v) \<Rightarrow> ('k, 'v) Partition \<Rightarrow> ('k, 'v) Partition" where
  "partition_update k h p = partition_set k (h (partition_get p k)) p"

section \<open>The reduction step of the collector\<close>

text \<open>
  \<^verbatim>\<open>WholeProgramState::collect\<close>, the two loops after the parallel walk: for every entry
  of the temporary map, every recorded value is joined into the partition's current
  value for the entry's key. The temporary map is the list of its entries in iteration
  order. \<open>join_values\<close> is the inner loop over one entry's vector, \<open>reduce\<close> the outer
  loop over the entries.
\<close>

fun join_values ::
  "'k \<Rightarrow> 'v::bounded_lattice list \<Rightarrow> ('k, 'v) Partition \<Rightarrow> ('k, 'v) Partition" where
  "join_values k [] p = p"
| "join_values k (v # vs) p =
     join_values k vs (partition_update k (\<lambda>current_value. sup current_value v) p)"

fun reduce ::
  "('k \<times> 'v::bounded_lattice list) list \<Rightarrow> ('k, 'v) Partition \<Rightarrow> ('k, 'v) Partition" where
  "reduce [] p = p"
| "reduce ((k, vs) # rest) p = reduce rest (join_values k vs p)"

section \<open>The program's data\<close>

text \<open>
  Classes, fields and methods are the \<^verbatim>\<open>DexClass\<close>, \<^verbatim>\<open>DexField\<close> and \<^verbatim>\<open>DexMethod\<close> objects
  the analysis receives. The C++ code refers to them by pointer; here a field or method
  is the record of the attributes the analysis reads, with its declaring class and name
  as identity. Every selector is named after the accessor the source calls:
  \<open>f_get_class\<close> is \<^verbatim>\<open>field->get_class()\<close>, \<open>f_is_static\<close> is \<^verbatim>\<open>is_static(field)\<close>,
  \<open>f_root\<close> is \<^verbatim>\<open>root(field)\<close>, \<open>f_can_delete\<close> is \<^verbatim>\<open>can_delete(field)\<close>, and so on.
\<close>

type_synonym DexType = string
type_synonym DexFieldRef = string
type_synonym DexMethodRef = string
type_synonym reg_t = "32 word"

record DexField =
  f_get_class :: DexType
  f_name :: string
  f_is_static :: bool
  f_is_external :: bool
  f_can_delete :: bool
  f_is_volatile :: bool
  f_root :: bool

text \<open>
  The opcodes the collector and the hooks distinguish: the static and instance store
  families, the return family, the invoke family, and a few others that none of the
  predicates accepts. \<open>is_an_sput\<close>, \<open>is_an_iput\<close> and \<open>is_a_return\<close> are the predicates
  of the \<^verbatim>\<open>opcode\<close> namespace.
\<close>

datatype IROpcode =
    OPCODE_NOP | OPCODE_CONST | OPCODE_MOVE_RESULT | OPCODE_SGET | OPCODE_IGET
  | OPCODE_RETURN_VOID | OPCODE_RETURN | OPCODE_RETURN_WIDE | OPCODE_RETURN_OBJECT
  | OPCODE_IPUT | OPCODE_IPUT_WIDE | OPCODE_IPUT_OBJECT | OPCODE_IPUT_BOOLEAN
  | OPCODE_IPUT_BYTE | OPCODE_IPUT_CHAR | OPCODE_IPUT_SHORT
  | OPCODE_SPUT | OPCODE_SPUT_WIDE | OPCODE_SPUT_OBJECT | OPCODE_SPUT_BOOLEAN
  | OPCODE_SPUT_BYTE | OPCODE_SPUT_CHAR | OPCODE_SPUT_SHORT
  | OPCODE_INVOKE_VIRTUAL | OPCODE_INVOKE_SUPER | OPCODE_INVOKE_DIRECT
  | OPCODE_INVOKE_STATIC | OPCODE_INVOKE_INTERFACE

definition is_an_sput :: "IROpcode \<Rightarrow> bool" where
  "is_an_sput op \<longleftrightarrow> op \<in> {OPCODE_SPUT, OPCODE_SPUT_WIDE, OPCODE_SPUT_OBJECT,
     OPCODE_SPUT_BOOLEAN, OPCODE_SPUT_BYTE, OPCODE_SPUT_CHAR, OPCODE_SPUT_SHORT}"

definition is_an_iput :: "IROpcode \<Rightarrow> bool" where
  "is_an_iput op \<longleftrightarrow> op \<in> {OPCODE_IPUT, OPCODE_IPUT_WIDE, OPCODE_IPUT_OBJECT,
     OPCODE_IPUT_BOOLEAN, OPCODE_IPUT_BYTE, OPCODE_IPUT_CHAR, OPCODE_IPUT_SHORT}"

definition is_a_return :: "IROpcode \<Rightarrow> bool" where
  "is_a_return op \<longleftrightarrow> op \<in> {OPCODE_RETURN_VOID, OPCODE_RETURN, OPCODE_RETURN_WIDE,
     OPCODE_RETURN_OBJECT}"

text \<open>
  An instruction carries its opcode, its source registers and the field and method
  operands. \<^verbatim>\<open>insn->src(i)\<close> fails (an assertion) when the instruction has no source
  \<open>i\<close>; \<open>src\<close> returns \<open>None\<close> there. \<^verbatim>\<open>get_field()\<close> and \<^verbatim>\<open>get_method()\<close> are asked
  only of instructions whose opcode carries such an operand.
\<close>

record IRInstruction =
  opcode :: IROpcode
  srcs :: "reg_t list"
  get_field :: DexFieldRef
  get_method :: DexMethodRef

definition src :: "IRInstruction \<Rightarrow> nat \<Rightarrow> reg_t option" where
  "src insn i = (if i < length (srcs insn) then Some (srcs insn ! i) else None)"

record Block =
  block_id :: nat
  block_insns :: "IRInstruction list"

record ControlFlowGraph =
  blocks :: "Block list"
  exit_block :: Block

record DexMethod =
  m_get_class :: DexType
  m_name :: string
  m_is_virtual :: bool
  m_root :: bool
  m_is_clinit :: bool
  m_get_code :: "ControlFlowGraph option"

record DexClass =
  get_type :: DexType
  is_external :: bool
  get_sfields :: "DexField list"
  get_ifields :: "DexField list"
  get_dmethods :: "DexMethod list"
  get_vmethods :: "DexMethod list"
  get_clinit :: "DexMethod option"
  get_ctors :: "DexMethod list"

type_synonym Scope = "DexClass list"

datatype FieldType = INSTANCE | STATIC

datatype MethodSearch = Direct | Static | Virtual | Super | Any | Interface | InterfaceVirtual

section \<open>Abstract environments and the collaborators of the analysis\<close>

text \<open>
  Modelled from the spec: \<^verbatim>\<open>ConstantEnvironment\<close> and \<^verbatim>\<open>FieldEnvironment\<close> are declared
  outside this source file. The specification treats an environment as the binding
  of registers and fields to abstract values in which a missing binding is Top. An
  environment is therefore a total map from registers and a total map from fields;
  \<^verbatim>\<open>env.get(r)\<close> is application, \<^verbatim>\<open>env->set(r, v)\<close> is \<open>env_set\<close>, and the default
  environment binds everything to Top. \<open>RESULT_REGISTER\<close> is the reserved register that
  holds the result of an instruction; only its identity matters. The unreachable (Bottom) environment of the
  underlying library is not modelled.
\<close>

type_synonym 'v FieldEnvironment = "DexField \<Rightarrow> 'v"

record 'v ConstantEnvironment =
  reg_env :: "reg_t \<Rightarrow> 'v"
  get_field_environment :: "'v FieldEnvironment"

definition RESULT_REGISTER :: reg_t where
  "RESULT_REGISTER = - 2"

definition env_get :: "'v ConstantEnvironment \<Rightarrow> reg_t \<Rightarrow> 'v" where
  "env_get env r = reg_env env r"

definition env_set :: "reg_t \<Rightarrow> 'v \<Rightarrow> 'v ConstantEnvironment \<Rightarrow> 'v ConstantEnvironment" where
  "env_set r v env = env\<lparr>reg_env := (reg_env env)(r := v)\<rparr>"

definition env_set_field ::
  "DexField \<Rightarrow> 'v \<Rightarrow> 'v ConstantEnvironment \<Rightarrow> 'v ConstantEnvironment" where
  "env_set_field f v env =
     env\<lparr>get_field_environment := (get_field_environment env)(f := v)\<rparr>"

definition top_environment :: "'v::bounded_lattice ConstantEnvironment" where
  "top_environment = \<lparr>reg_env = (\<lambda>r. top), get_field_environment = (\<lambda>f. top)\<rparr>"

text \<open>
  The intraprocedural analysis of one method, as the collector consumes it: the entry
  and exit state of a block and the transfer function of one instruction.
  \<^verbatim>\<open>fp_iter.get_intraprocedural_analysis(method)\<close> is the application of a
  \<open>FixpointIterator\<close> to the method.
\<close>

record 'v IntraproceduralAnalysis =
  get_entry_state_at :: "Block \<Rightarrow> 'v ConstantEnvironment"
  get_exit_state_at :: "Block \<Rightarrow> 'v ConstantEnvironment"
  analyze_instruction ::
    "IRInstruction \<Rightarrow> 'v ConstantEnvironment \<Rightarrow> bool \<Rightarrow> 'v ConstantEnvironment"

type_synonym 'v FixpointIterator = "DexMethod \<Rightarrow> 'v IntraproceduralAnalysis"

text \<open>
  The remaining functions the file calls and does not define are parameters, collected
  in one record: the field and method resolvers, \<^verbatim>\<open>opcode_to_search\<close>, the abstract
  value of a static field's encoded value (what \<^verbatim>\<open>set_encoded_values\<close> binds the field
  to) and the abstract constant \<^verbatim>\<open>SignedConstantDomain(0)\<close>.
\<close>

record 'v Externals =
  resolve_field :: "DexFieldRef \<Rightarrow> DexField option"
  resolve_method :: "DexMethodRef \<Rightarrow> MethodSearch \<Rightarrow> DexMethod option"
  opcode_to_search :: "IRInstruction \<Rightarrow> MethodSearch"
  encoded_value :: "DexField \<Rightarrow> 'v"
  signed_constant_zero :: 'v

text \<open>
  Modelled from the spec: \<^verbatim>\<open>set_encoded_values\<close> is defined outside this source file.
  For a class without initializer the specification takes each static field's initial
  value to be its declared encoded default converted to an abstract value;
  \<open>set_encoded_values\<close> binds every static field of the class to that value.
\<close>

definition set_encoded_values ::
  "'v Externals \<Rightarrow> DexClass \<Rightarrow> 'v ConstantEnvironment \<Rightarrow> 'v ConstantEnvironment" where
  "set_encoded_values ext cls env =
     fold (\<lambda>sfield e. env_set_field sfield (encoded_value ext sfield) e) (get_sfields cls) env"

text \<open>
  Modelled from the spec: the walkers (\<^verbatim>\<open>walk::fields\<close>, \<^verbatim>\<open>walk::code\<close>,
  \<^verbatim>\<open>walk::parallel::methods\<close>) are defined outside this source file. They visit every
  field, every method with code, and every method of every class of the scope. The
  parallel walk is modelled by the sequential visit in scope order; the order in which
  workers append observations is the subject of the reduction's order independence.
\<close>

definition walk_fields :: "Scope \<Rightarrow> DexField list" where
  "walk_fields scope = concat (map (\<lambda>cls. get_ifields cls @ get_sfields cls) scope)"

definition walk_methods :: "Scope \<Rightarrow> DexMethod list" where
  "walk_methods scope = concat (map (\<lambda>cls. get_dmethods cls @ get_vmethods cls) scope)"

definition walk_code :: "Scope \<Rightarrow> DexMethod list" where
  "walk_code scope = filter (\<lambda>method. m_get_code method \<noteq> None) (walk_methods scope)"

section \<open>The whole-program state\<close>

text \<open>
  Modelled from the spec: the call graph is an external collaborator, consumed through
  the per-call-site return value and the "is dynamic" predicate.
\<close>

record 'v CallGraph =
  cg_return_value :: "IRInstruction \<Rightarrow> 'v"
  cg_method_is_dynamic :: "DexMethod \<Rightarrow> bool"

record 'v WholeProgramState =
  m_known_fields :: "DexField set"
  m_known_methods :: "DexMethod set"
  m_field_partition :: "(DexField, 'v) Partition"
  m_method_partition :: "(DexMethod, 'v) Partition"
  m_field_blocklist :: "DexType set"
  m_call_graph :: "'v CallGraph option"

text \<open>
  Modelled from the spec: the read operations of the whole-program state are defined in
  the class's header, outside this source file. The specification gives them as: get
  field value returns Top if the field is not a known field or not present, and the
  field's summary otherwise; an entity in neither known set is always resolved to Top
  regardless of the partition's content, and the hook reads the callee's
  method-partition value otherwise; the return value read through the call graph is
  Bottom if there is no call-graph context and the per-call-site value otherwise; a
  method is dynamic when the call graph flags it.
\<close>

definition get_field_value :: "'v::bounded_lattice WholeProgramState \<Rightarrow> DexField \<Rightarrow> 'v" where
  "get_field_value wps field =
     (if field \<notin> m_known_fields wps \<or> m_field_partition wps field = None then top
      else partition_get (m_field_partition wps) field)"

definition get_return_value :: "'v::bounded_lattice WholeProgramState \<Rightarrow> DexMethod \<Rightarrow> 'v" where
  "get_return_value wps method =
     (if method \<notin> m_known_methods wps then top
      else partition_get (m_method_partition wps) method)"

definition has_call_graph :: "'v WholeProgramState \<Rightarrow> bool" where
  "has_call_graph wps \<longleftrightarrow> m_call_graph wps \<noteq> None"

definition method_is_dynamic :: "'v WholeProgramState \<Rightarrow> DexMethod \<Rightarrow> bool" where
  "method_is_dynamic wps method =
     (case m_call_graph wps of None \<Rightarrow> False | Some cg \<Rightarrow> cg_method_is_dynamic cg method)"

definition get_return_value_from_cg ::
  "'v::bounded_lattice WholeProgramState \<Rightarrow> IRInstruction \<Rightarrow> 'v" where
  "get_return_value_from_cg wps insn =
     (case m_call_graph wps of None \<Rightarrow> bot | Some cg \<Rightarrow> cg_return_value cg insn)"

section \<open>The functions of the source file\<close>

text \<open>
  A run that fails an \<^verbatim>\<open>always_assert\<close> (or dereferences a null \<^verbatim>\<open>IRCode\<close>) aborts; a
  function that can abort returns an \<open>option\<close>, \<open>None\<close> for the abort.
\<close>

subsection \<open>\<^verbatim>\<open>set_fields_in_partition\<close> and \<^verbatim>\<open>analyze_clinits\<close>\<close>

fun set_fields_loop ::
  "DexClass \<Rightarrow> 'v::bounded_lattice FieldEnvironment \<Rightarrow> DexField list \<Rightarrow>
   (DexField, 'v) Partition \<Rightarrow> (DexField, 'v) Partition option" where
  "set_fields_loop cls field_env [] field_partition = Some field_partition"
| "set_fields_loop cls field_env (field # rest_fields) field_partition =
     (let value = field_env field in
      if value \<noteq> top \<and> f_get_class field \<noteq> get_type cls then None
      else set_fields_loop cls field_env rest_fields (partition_set field value field_partition))"

definition set_fields_in_partition ::
  "DexClass \<Rightarrow> 'v::bounded_lattice FieldEnvironment \<Rightarrow> FieldType \<Rightarrow>
   (DexField, 'v) Partition \<Rightarrow> (DexField, 'v) Partition option" where
  "set_fields_in_partition cls field_env field_type field_partition =
     set_fields_loop cls field_env
       (if field_type = STATIC then get_sfields cls else get_ifields cls) field_partition"

fun analyze_clinits ::
  "'v::bounded_lattice Externals \<Rightarrow> Scope \<Rightarrow> 'v FixpointIterator \<Rightarrow>
   (DexField, 'v) Partition \<Rightarrow> (DexField, 'v) Partition option" where
  "analyze_clinits ext [] fp_iter field_partition = Some field_partition"
| "analyze_clinits ext (cls # scope) fp_iter field_partition =
     (case get_clinit cls of
        None \<Rightarrow>
          (let env = set_encoded_values ext cls top_environment in
           case set_fields_in_partition cls (get_field_environment env) STATIC field_partition of
             None \<Rightarrow> None
           | Some p \<Rightarrow> analyze_clinits ext scope fp_iter p)
      | Some clinit \<Rightarrow>
          (case m_get_code clinit of
             None \<Rightarrow> None
           | Some cfg \<Rightarrow>
               (let intra_cp = fp_iter clinit;
                    env = get_exit_state_at intra_cp (exit_block cfg) in
                case set_fields_in_partition cls (get_field_environment env) STATIC
                       field_partition of
                  None \<Rightarrow> None
                | Some p \<Rightarrow> analyze_clinits ext scope fp_iter p)))"

subsection \<open>\<^verbatim>\<open>analyze_gets_helper\<close>, \<^verbatim>\<open>not_eligible_ifield\<close>, \<^verbatim>\<open>initialize_ifields\<close>\<close>

text \<open>
  A hook returns its boolean together with the environment it leaves; the
  \<^verbatim>\<open>whole_program_state\<close> pointer is an \<open>option\<close>, \<open>None\<close> for the null pointer.
\<close>

definition analyze_gets_helper ::
  "'v::bounded_lattice Externals \<Rightarrow> 'v WholeProgramState option \<Rightarrow> IRInstruction \<Rightarrow>
   'v ConstantEnvironment \<Rightarrow> bool \<times> 'v ConstantEnvironment" where
  "analyze_gets_helper ext whole_program_state insn env =
     (case whole_program_state of
        None \<Rightarrow> (False, env)
      | Some wps \<Rightarrow>
          (case resolve_field ext (get_field insn) of
             None \<Rightarrow> (False, env)
           | Some field \<Rightarrow>
               (let value = get_field_value wps field in
                if value = top then (False, env)
                else (True, env_set RESULT_REGISTER value env))))"

definition not_eligible_ifield :: "DexField \<Rightarrow> bool" where
  "not_eligible_ifield field \<longleftrightarrow>
     f_is_static field \<or> f_is_external field \<or> \<not> f_can_delete field \<or> f_is_volatile field"

definition initialize_ifields ::
  "'v::bounded_lattice Externals \<Rightarrow> Scope \<Rightarrow> (DexField, 'v) Partition \<Rightarrow> DexField set \<Rightarrow>
   (DexField, 'v) Partition" where
  "initialize_ifields ext scope field_partition definitely_assigned_ifields =
     fold (\<lambda>field p.
             if not_eligible_ifield field then p
             else (let value = (if field \<in> definitely_assigned_ifields then bot
                                else signed_constant_zero ext)
                   in partition_set field value p))
          (walk_fields scope) field_partition"

subsection \<open>The collector\<close>

text \<open>
  The temporary maps of \<^verbatim>\<open>collect\<close> (\<^verbatim>\<open>ConcurrentMap<key, std::vector<ConstantValue>>\<close>)
  are lists of entries. \<open>concurrent_map_update\<close> is \<^verbatim>\<open>ConcurrentMap::update\<close>: the updater
  is applied to the key's vector, a new empty one when the key has no entry yet.
\<close>

type_synonym ('k, 'v) ConcurrentMap = "('k \<times> 'v list) list"

fun concurrent_map_update ::
  "'k \<Rightarrow> ('v list \<Rightarrow> 'v list) \<Rightarrow> ('k, 'v) ConcurrentMap \<Rightarrow> ('k, 'v) ConcurrentMap" where
  "concurrent_map_update k h [] = [(k, h [])]"
| "concurrent_map_update k h ((k', s) # rest) =
     (if k' = k then (k', h s) # rest else (k', s) # concurrent_map_update k h rest)"

definition collect_field_values ::
  "'v Externals \<Rightarrow> DexField set \<Rightarrow> IRInstruction \<Rightarrow> 'v ConstantEnvironment \<Rightarrow>
   DexType option \<Rightarrow> (DexField, 'v) ConcurrentMap \<Rightarrow> (DexField, 'v) ConcurrentMap option" where
  "collect_field_values ext known_fields insn env clinit_cls fields_value_tmp =
     (if \<not> is_an_sput (opcode insn) \<and> \<not> is_an_iput (opcode insn) then Some fields_value_tmp
      else
        (case resolve_field ext (get_field insn) of
           None \<Rightarrow> Some fields_value_tmp
         | Some field \<Rightarrow>
             if field \<in> known_fields then
               (if is_an_sput (opcode insn) \<and> Some (f_get_class field) = clinit_cls
                then Some fields_value_tmp
                else
                  (case src insn 0 of
                     None \<Rightarrow> None
                   | Some r \<Rightarrow>
                       (let value = env_get env r in
                        Some (concurrent_map_update field (\<lambda>s. s @ [value])
                                fields_value_tmp))))
             else Some fields_value_tmp))"

definition collect_return_values ::
  "IRInstruction \<Rightarrow> 'v::bounded_lattice ConstantEnvironment \<Rightarrow> DexMethod \<Rightarrow>
   (DexMethod, 'v) ConcurrentMap \<Rightarrow> (DexMethod, 'v) ConcurrentMap option" where
  "collect_return_values insn env method methods_value_tmp =
     (let op = opcode insn in
      if \<not> is_a_return op then Some methods_value_tmp
      else if op = OPCODE_RETURN_VOID then
        Some (concurrent_map_update method (\<lambda>s. s @ [top]) methods_value_tmp)
      else
        (case src insn 0 of
           None \<Rightarrow> None
         | Some r \<Rightarrow>
             (let value = env_get env r in
              Some (concurrent_map_update method (\<lambda>s. s @ [value]) methods_value_tmp))))"

text \<open>
  The body of the walk in \<^verbatim>\<open>collect\<close>: \<open>collect_insns\<close> is the loop over the instructions
  of one block (the flag passed to the transfer function says whether the instruction
  is the block's last one), \<open>collect_blocks\<close> the loop over the blocks of one method,
  \<open>collect_method\<close> the function applied to each method, and \<open>collect_methods\<close> the walk
  over the methods.
\<close>

type_synonym 'v Observations =
  "(DexField, 'v) ConcurrentMap \<times> (DexMethod, 'v) ConcurrentMap"

fun collect_insns ::
  "'v::bounded_lattice Externals \<Rightarrow> DexField set \<Rightarrow> 'v IntraproceduralAnalysis \<Rightarrow> DexMethod \<Rightarrow>
   IRInstruction list \<Rightarrow> 'v ConstantEnvironment \<Rightarrow> 'v Observations \<Rightarrow> 'v Observations option" where
  "collect_insns ext known_fields intra_cp method [] env tmp = Some tmp"
| "collect_insns ext known_fields intra_cp method (insn # rest) env (fields_value_tmp, methods_value_tmp) =
     (let env' = analyze_instruction intra_cp insn env (rest = []) in
      case collect_field_values ext known_fields insn env'
             (if m_is_clinit method then Some (m_get_class method) else None)
             fields_value_tmp of
        None \<Rightarrow> None
      | Some ft \<Rightarrow>
          (case collect_return_values insn env' method methods_value_tmp of
             None \<Rightarrow> None
           | Some mt \<Rightarrow> collect_insns ext known_fields intra_cp method rest env' (ft, mt)))"

fun collect_blocks ::
  "'v::bounded_lattice Externals \<Rightarrow> DexField set \<Rightarrow> 'v IntraproceduralAnalysis \<Rightarrow> DexMethod \<Rightarrow>
   Block list \<Rightarrow> 'v Observations \<Rightarrow> 'v Observations option" where
  "collect_blocks ext known_fields intra_cp method [] tmp = Some tmp"
| "collect_blocks ext known_fields intra_cp method (b # bs) tmp =
     (let env = get_entry_state_at intra_cp b in
      case collect_insns ext known_fields intra_cp method (block_insns b) env tmp of
        None \<Rightarrow> None
      | Some tmp' \<Rightarrow> collect_blocks ext known_fields intra_cp method bs tmp')"

definition collect_method ::
  "'v::bounded_lattice Externals \<Rightarrow> DexField set \<Rightarrow> 'v FixpointIterator \<Rightarrow> DexMethod \<Rightarrow>
   'v Observations \<Rightarrow> 'v Observations option" where
  "collect_method ext known_fields fp_iter method tmp =
     (case m_get_code method of
        None \<Rightarrow> Some tmp
      | Some cfg \<Rightarrow>
          (let intra_cp = fp_iter method in
           collect_blocks ext known_fields intra_cp method (blocks cfg) tmp))"

fun collect_methods ::
  "'v::bounded_lattice Externals \<Rightarrow> DexField set \<Rightarrow> 'v FixpointIterator \<Rightarrow> DexMethod list \<Rightarrow>
   'v Observations \<Rightarrow> 'v Observations option" where
  "collect_methods ext known_fields fp_iter [] tmp = Some tmp"
| "collect_methods ext known_fields fp_iter (method # methods) tmp =
     (case collect_method ext known_fields fp_iter method tmp of
        None \<Rightarrow> None
      | Some tmp' \<Rightarrow> collect_methods ext known_fields fp_iter methods tmp')"

definition collect ::
  "'v::bounded_lattice Externals \<Rightarrow> Scope \<Rightarrow> 'v FixpointIterator \<Rightarrow> DexField set \<Rightarrow>
   'v WholeProgramState \<Rightarrow> 'v WholeProgramState option" where
  "collect ext scope fp_iter definitely_assigned_ifields wps =
     (let seeded = initialize_ifields ext scope (m_field_partition wps)
                     definitely_assigned_ifields in
      case collect_methods ext (m_known_fields wps) fp_iter (walk_methods scope) ([], []) of
        None \<Rightarrow> None
      | Some (fields_value_tmp, methods_value_tmp) \<Rightarrow>
          Some (wps\<lparr>m_field_partition := reduce fields_value_tmp seeded,
                    m_method_partition := reduce methods_value_tmp (m_method_partition wps)\<rparr>))"

subsection \<open>The constructor\<close>

text \<open>
  The three walks of the constructor that fill the known sets. The set of non-true-virtual
  methods is passed as the list of its elements, in the order the loop visits them.
\<close>

definition known_field_step :: "DexType set \<Rightarrow> DexField \<Rightarrow> DexField set \<Rightarrow> DexField set" where
  "known_field_step field_blocklist field known =
     (if f_get_class field \<in> field_blocklist then known
      else
        (let known' = (if f_is_static field \<and> \<not> f_root field then insert field known
                       else known)
         in if not_eligible_ifield field then known' else insert field known'))"

definition known_non_true_virtual_step :: "DexMethod \<Rightarrow> DexMethod set \<Rightarrow> DexMethod set" where
  "known_non_true_virtual_step non_true_virtual known =
     (if \<not> m_root non_true_virtual \<and> m_get_code non_true_virtual \<noteq> None
      then insert non_true_virtual known else known)"

definition known_non_virtual_step :: "DexMethod \<Rightarrow> DexMethod set \<Rightarrow> DexMethod set" where
  "known_non_virtual_step method known =
     (if \<not> m_is_virtual method \<and> m_get_code method \<noteq> None
      then insert method known else known)"

definition WholeProgramState_ctor ::
  "'v::bounded_lattice Externals \<Rightarrow> Scope \<Rightarrow> 'v FixpointIterator \<Rightarrow> DexMethod list \<Rightarrow>
   DexType set \<Rightarrow> DexField set \<Rightarrow> 'v WholeProgramState option" where
  "WholeProgramState_ctor ext scope fp_iter non_true_virtuals field_blocklist
     definitely_assigned_ifields =
     (let known_fields = fold (known_field_step field_blocklist) (walk_fields scope) {};
          known_methods = fold known_non_true_virtual_step non_true_virtuals {};
          known_methods = fold known_non_virtual_step (walk_code scope) known_methods
      in case analyze_clinits ext scope fp_iter Map.empty of
           None \<Rightarrow> None
         | Some field_partition \<Rightarrow>
             collect ext scope fp_iter definitely_assigned_ifields
               \<lparr>m_known_fields = known_fields,
                m_known_methods = known_methods,
                m_field_partition = field_partition,
                m_method_partition = Map.empty,
                m_field_blocklist = field_blocklist,
                m_call_graph = None\<rparr>)"

definition WholeProgramState_ctor_cg ::
  "'v::bounded_lattice Externals \<Rightarrow> Scope \<Rightarrow> 'v FixpointIterator \<Rightarrow> DexMethod list \<Rightarrow>
   DexType set \<Rightarrow> DexField set \<Rightarrow> 'v CallGraph \<Rightarrow> 'v WholeProgramState option" where
  "WholeProgramState_ctor_cg ext scope fp_iter non_true_virtuals field_blocklist
     definitely_assigned_ifields call_graph =
     (case WholeProgramState_ctor ext scope fp_iter non_true_virtuals field_blocklist
             definitely_assigned_ifields of
        None \<Rightarrow> None
      | Some wps \<Rightarrow> Some (wps\<lparr>m_call_graph := Some call_graph\<rparr>))"

subsection \<open>\<^verbatim>\<open>collect_instance_finals\<close>\<close>

fun instance_finals_loop ::
  "DexField set \<Rightarrow> DexType set \<Rightarrow> DexField list \<Rightarrow>
   DexField set \<times> 'v::bounded_lattice FieldEnvironment \<Rightarrow> DexField set \<times> 'v FieldEnvironment" where
  "instance_finals_loop eligible_ifields field_blocklist [] acc = acc"
| "instance_finals_loop eligible_ifields field_blocklist (field # rest_fields) (known, field_env) =
     (if field \<in> eligible_ifields \<and> f_get_class field \<notin> field_blocklist
      then instance_finals_loop eligible_ifields field_blocklist rest_fields
             (insert field known, field_env)
      else instance_finals_loop eligible_ifields field_blocklist rest_fields
             (known, field_env(field := top)))"

definition collect_instance_finals ::
  "DexClass \<Rightarrow> DexField set \<Rightarrow> 'v::bounded_lattice FieldEnvironment \<Rightarrow>
   'v WholeProgramState \<Rightarrow> 'v WholeProgramState option" where
  "collect_instance_finals cls eligible_ifields field_env wps =
     (if is_external cls then None
      else
        (let (known, field_env') =
               (if length (get_ctors cls) > 1
                then (m_known_fields wps,
                      fold (\<lambda>field e. e(field := top)) (get_ifields cls) field_env)
                else instance_finals_loop eligible_ifields (m_field_blocklist wps)
                       (get_ifields cls) (m_known_fields wps, field_env))
         in case set_fields_in_partition cls field_env' INSTANCE (m_field_partition wps) of
              None \<Rightarrow> None
            | Some p \<Rightarrow> Some (wps\<lparr>m_known_fields := known, m_field_partition := p\<rparr>)))"

subsection \<open>The analyzer hooks\<close>

definition analyze_sget ::
  "'v::bounded_lattice Externals \<Rightarrow> 'v WholeProgramState option \<Rightarrow> IRInstruction \<Rightarrow>
   'v ConstantEnvironment \<Rightarrow> bool \<times> 'v ConstantEnvironment" where
  "analyze_sget ext whole_program_state insn env =
     analyze_gets_helper ext whole_program_state insn env"

definition analyze_iget ::
  "'v::bounded_lattice Externals \<Rightarrow> 'v WholeProgramState option \<Rightarrow> IRInstruction \<Rightarrow>
   'v ConstantEnvironment \<Rightarrow> bool \<times> 'v ConstantEnvironment" where
  "analyze_iget ext whole_program_state insn env =
     analyze_gets_helper ext whole_program_state insn env"

definition analyze_invoke ::
  "'v::bounded_lattice Externals \<Rightarrow> 'v WholeProgramState option \<Rightarrow> IRInstruction \<Rightarrow>
   'v ConstantEnvironment \<Rightarrow> bool \<times> 'v ConstantEnvironment" where
  "analyze_invoke ext whole_program_state insn env =
     (case whole_program_state of
        None \<Rightarrow> (False, env)
      | Some wps \<Rightarrow>
          if has_call_graph wps then
            (let method = resolve_method ext (get_method insn) (opcode_to_search ext insn);
                 method = (if method = None \<and> opcode_to_search ext insn = Virtual
                           then resolve_method ext (get_method insn) InterfaceVirtual
                           else method)
             in case method of
                  None \<Rightarrow> (False, env)
                | Some m \<Rightarrow>
                    if method_is_dynamic wps m then (False, env)
                    else
                      (let value = get_return_value_from_cg wps insn in
                       if value = top then (False, env)
                       else (True, env_set RESULT_REGISTER value env)))
          else
            (let op = opcode insn in
             if op \<noteq> OPCODE_INVOKE_DIRECT \<and> op \<noteq> OPCODE_INVOKE_STATIC \<and>
                op \<noteq> OPCODE_INVOKE_VIRTUAL
             then (False, env)
             else
               (case resolve_method ext (get_method insn) (opcode_to_search ext insn) of
                  None \<Rightarrow> (False, env)
                | Some method \<Rightarrow>
                    (let value = get_return_value wps method in
                     if value = top then (False, env)
                     else (True, env_set RESULT_REGISTER value env)))))"

section \<open>Notions used to state the claims\<close>

text \<open>
  \<open>recorded tmp k\<close> lists the values a temporary map holds for the key \<open>k\<close>.
  \<open>has_store_or_return_operand\<close> says that an instruction whose operand the collector
  reads (a store, or a return other than return-void) has a first source register;
  \<open>operands_present\<close> says so of every instruction of every method of a list.
  \<open>stores_to\<close> says that an instruction is a static or instance store whose field
  resolves to the given field. \<open>static_field_env\<close> is the field environment that
  \<^verbatim>\<open>analyze_clinits\<close> copies from for one class (none when the initializer has no code). \<open>clinit_cls_of\<close> abbreviates the class argument that
  \<^verbatim>\<open>collect\<close> passes to \<^verbatim>\<open>collect_field_values\<close>.
\<close>

definition recorded :: "('k, 'v) ConcurrentMap \<Rightarrow> 'k \<Rightarrow> 'v list" where
  "recorded tmp k = concat (map snd (filter (\<lambda>entry. fst entry = k) tmp))"

definition has_store_or_return_operand :: "IRInstruction \<Rightarrow> bool" where
  "has_store_or_return_operand insn \<longleftrightarrow>
     (is_an_sput (opcode insn) \<or> is_an_iput (opcode insn) \<or>
      (is_a_return (opcode insn) \<and> opcode insn \<noteq> OPCODE_RETURN_VOID)
      \<longrightarrow> srcs insn \<noteq> [])"

definition method_insns :: "DexMethod \<Rightarrow> IRInstruction list" where
  "method_insns method =
     (case m_get_code method of
        None \<Rightarrow> []
      | Some cfg \<Rightarrow> concat (map block_insns (blocks cfg)))"

definition operands_present :: "DexMethod list \<Rightarrow> bool" where
  "operands_present methods \<longleftrightarrow>
     (\<forall>method \<in> set methods. \<forall>insn \<in> set (method_insns method).
        has_store_or_return_operand insn)"

definition static_field_env ::
  "'v::bounded_lattice Externals \<Rightarrow> 'v FixpointIterator \<Rightarrow> DexClass \<Rightarrow>
   'v FieldEnvironment option" where
  "static_field_env ext fp_iter cls =
     (case get_clinit cls of
        None \<Rightarrow> Some (get_field_environment (set_encoded_values ext cls top_environment))
      | Some clinit \<Rightarrow>
          (case m_get_code clinit of
             None \<Rightarrow> None
           | Some cfg \<Rightarrow>
               Some (get_field_environment (get_exit_state_at (fp_iter clinit) (exit_block cfg)))))"

abbreviation clinit_cls_of :: "DexMethod \<Rightarrow> DexType option" where
  "clinit_cls_of method \<equiv> (if m_is_clinit method then Some (m_get_class method) else None)"

definition stores_to :: "'v Externals \<Rightarrow> IRInstruction \<Rightarrow> DexField \<Rightarrow> bool" where
  "stores_to ext insn field \<longleftrightarrow>
     (is_an_sput (opcode insn) \<or> is_an_iput (opcode insn)) \<and>
     resolve_field ext (get_field insn) = Some field"

text \<open>
  The observations the claims expect of the walk over a field, written from the
  claims' words and independently of \<open>collect_insns\<close>. \<open>replay_envs\<close> pairs every
  instruction of a block with the environment reached by applying the transfer function
  from the block's entry state up to and including that instruction (the flag says
  whether the instruction is the block's last one). \<open>method_states\<close> does so for every
  block of a method with code. \<open>in_own_clinit\<close> says that an instruction of a method is a
  static store, inside a class initializer, to a field declared by the initializer's
  class. \<open>store_values\<close> lists, for one method, the abstract value of the stored operand
  (source register 0) at every store to the given field, when the field is known and the
  store is not in its own class's initializer; \<open>field_store_values\<close> does so for a list
  of methods.
\<close>

fun replay_envs ::
  "'v IntraproceduralAnalysis \<Rightarrow> IRInstruction list \<Rightarrow> 'v ConstantEnvironment \<Rightarrow>
   (IRInstruction \<times> 'v ConstantEnvironment) list" where
  "replay_envs intra_cp [] env = []"
| "replay_envs intra_cp (insn # rest) env =
     (let env' = analyze_instruction intra_cp insn env (rest = [])
      in (insn, env') # replay_envs intra_cp rest env')"

definition method_states ::
  "'v FixpointIterator \<Rightarrow> DexMethod \<Rightarrow> (IRInstruction \<times> 'v ConstantEnvironment) list" where
  "method_states fp_iter method =
     (case m_get_code method of
        None \<Rightarrow> []
      | Some cfg \<Rightarrow>
          concat (map (\<lambda>b. replay_envs (fp_iter method) (block_insns b)
                               (get_entry_state_at (fp_iter method) b))
                      (blocks cfg)))"

definition in_own_clinit :: "DexMethod \<Rightarrow> IRInstruction \<Rightarrow> DexField \<Rightarrow> bool" where
  "in_own_clinit method insn field \<longleftrightarrow>
     is_an_sput (opcode insn) \<and> m_is_clinit method \<and> m_get_class method = f_get_class field"

definition store_values ::
  "'v Externals \<Rightarrow> DexField set \<Rightarrow> DexMethod \<Rightarrow> DexField \<Rightarrow>
   (IRInstruction \<times> 'v ConstantEnvironment) list \<Rightarrow> 'v list" where
  "store_values ext known method field states =
     concat (map (\<lambda>(insn, env).
                    if stores_to ext insn field \<and> field \<in> known \<and>
                       \<not> in_own_clinit method insn field
                    then [env_get env (srcs insn ! 0)] else [])
                 states)"

definition field_store_values ::
  "'v Externals \<Rightarrow> DexField set \<Rightarrow> 'v FixpointIterator \<Rightarrow> DexMethod list \<Rightarrow> DexField \<Rightarrow>
   'v list" where
  "field_store_values ext known fp_iter methods field =
     concat (map (\<lambda>method. store_values ext known method field (method_states fp_iter method))
                 methods)"

section \<open>A small program for the worked examples\<close>

text \<open>
  Class \<open>A\<close> has a static field \<open>x\<close>, a static field \<open>kept\<close> that a keep rule roots, a
  static field \<open>unset\<close> that nothing writes, an instance field \<open>i\<close> and a volatile
  instance field \<open>vol\<close>. Its initializer stores
  register 0 and then register 1 into \<open>x\<close>; \<open>get\<close> returns register 2; the constructor
  stores register 3 into \<open>i\<close>; \<open>spin\<close> has no return instruction; \<open>virt\<close> is virtual.
  Class \<open>B\<close> has a static field \<open>y\<close> and no initializer; its method \<open>put\<close> stores
  register 0 into \<open>y\<close>. The method reference \<open>A.get\<close> resolves by static search only, \<open>A.virt\<close>
  by interface-virtual search only. The intraprocedural analysis binds registers 0 to 3 to the
  constants 1, 2, 42 and 7 everywhere, and at the exit of an initializer it binds the
  field \<open>x\<close> to 2 and the field \<open>kept\<close> to 5.
\<close>

definition A_x :: DexField where
  "A_x = \<lparr>f_get_class = ''LA;'', f_name = ''x'', f_is_static = True, f_is_external = False,
          f_can_delete = True, f_is_volatile = False, f_root = False\<rparr>"

definition A_kept :: DexField where
  "A_kept = \<lparr>f_get_class = ''LA;'', f_name = ''kept'', f_is_static = True,
             f_is_external = False, f_can_delete = False, f_is_volatile = False,
             f_root = True\<rparr>"

definition A_unset :: DexField where
  "A_unset = \<lparr>f_get_class = ''LA;'', f_name = ''unset'', f_is_static = True,
              f_is_external = False, f_can_delete = True, f_is_volatile = False,
              f_root = False\<rparr>"

definition A_i :: DexField where
  "A_i = \<lparr>f_get_class = ''LA;'', f_name = ''i'', f_is_static = False, f_is_external = False,
          f_can_delete = True, f_is_volatile = False, f_root = False\<rparr>"

definition A_vol :: DexField where
  "A_vol = \<lparr>f_get_class = ''LA;'', f_name = ''vol'', f_is_static = False,
            f_is_external = False, f_can_delete = True, f_is_volatile = True,
            f_root = False\<rparr>"

definition B_y :: DexField where
  "B_y = \<lparr>f_get_class = ''LB;'', f_name = ''y'', f_is_static = True, f_is_external = False,
          f_can_delete = True, f_is_volatile = False, f_root = False\<rparr>"

definition insn_sput_x0 :: IRInstruction where
  "insn_sput_x0 = \<lparr>opcode = OPCODE_SPUT, srcs = [0], get_field = ''A.x'', get_method = ''''\<rparr>"

definition insn_sput_x1 :: IRInstruction where
  "insn_sput_x1 = \<lparr>opcode = OPCODE_SPUT, srcs = [1], get_field = ''A.x'', get_method = ''''\<rparr>"

definition insn_sput_y0 :: IRInstruction where
  "insn_sput_y0 = \<lparr>opcode = OPCODE_SPUT, srcs = [0], get_field = ''B.y'', get_method = ''''\<rparr>"

definition insn_iput_i3 :: IRInstruction where
  "insn_iput_i3 = \<lparr>opcode = OPCODE_IPUT, srcs = [3, 4], get_field = ''A.i'', get_method = ''''\<rparr>"

definition insn_return_void :: IRInstruction where
  "insn_return_void = \<lparr>opcode = OPCODE_RETURN_VOID, srcs = [], get_field = '''', get_method = ''''\<rparr>"

definition insn_return_2 :: IRInstruction where
  "insn_return_2 = \<lparr>opcode = OPCODE_RETURN, srcs = [2], get_field = '''', get_method = ''''\<rparr>"

definition insn_nop :: IRInstruction where
  "insn_nop = \<lparr>opcode = OPCODE_NOP, srcs = [], get_field = '''', get_method = ''''\<rparr>"

definition insn_sget_x :: IRInstruction where
  "insn_sget_x = \<lparr>opcode = OPCODE_SGET, srcs = [], get_field = ''A.x'', get_method = ''''\<rparr>"

definition insn_sget_kept :: IRInstruction where
  "insn_sget_kept = \<lparr>opcode = OPCODE_SGET, srcs = [], get_field = ''A.kept'', get_method = ''''\<rparr>"

definition insn_invoke_static_get :: IRInstruction where
  "insn_invoke_static_get =
     \<lparr>opcode = OPCODE_INVOKE_STATIC, srcs = [], get_field = '''', get_method = ''A.get''\<rparr>"

definition insn_invoke_interface_virt :: IRInstruction where
  "insn_invoke_interface_virt =
     \<lparr>opcode = OPCODE_INVOKE_INTERFACE, srcs = [], get_field = '''', get_method = ''A.virt''\<rparr>"

definition insn_invoke_virtual_virt :: IRInstruction where
  "insn_invoke_virtual_virt =
     \<lparr>opcode = OPCODE_INVOKE_VIRTUAL, srcs = [], get_field = '''', get_method = ''A.virt''\<rparr>"

definition single_block :: "IRInstruction list \<Rightarrow> ControlFlowGraph" where
  "single_block insns =
     \<lparr>blocks = [\<lparr>block_id = 0, block_insns = insns\<rparr>],
      exit_block = \<lparr>block_id = 0, block_insns = insns\<rparr>\<rparr>"

definition A_clinit :: DexMethod where
  "A_clinit = \<lparr>m_get_class = ''LA;'', m_name = ''<clinit>'', m_is_virtual = False,
               m_root = False, m_is_clinit = True,
               m_get_code = Some (single_block [insn_sput_x0, insn_sput_x1, insn_return_void])\<rparr>"

definition A_get :: DexMethod where
  "A_get = \<lparr>m_get_class = ''LA;'', m_name = ''get'', m_is_virtual = False, m_root = False,
            m_is_clinit = False, m_get_code = Some (single_block [insn_return_2])\<rparr>"

definition A_init :: DexMethod where
  "A_init = \<lparr>m_get_class = ''LA;'', m_name = ''<init>'', m_is_virtual = False, m_root = False,
             m_is_clinit = False,
             m_get_code = Some (single_block [insn_iput_i3, insn_return_void])\<rparr>"

definition A_spin :: DexMethod where
  "A_spin = \<lparr>m_get_class = ''LA;'', m_name = ''spin'', m_is_virtual = False, m_root = False,
             m_is_clinit = False, m_get_code = Some (single_block [insn_nop])\<rparr>"

definition A_virt :: DexMethod where
  "A_virt = \<lparr>m_get_class = ''LA;'', m_name = ''virt'', m_is_virtual = True, m_root = False,
             m_is_clinit = False, m_get_code = Some (single_block [insn_return_void])\<rparr>"

definition B_put :: DexMethod where
  "B_put = \<lparr>m_get_class = ''LB;'', m_name = ''put'', m_is_virtual = False, m_root = True,
            m_is_clinit = False,
            m_get_code = Some (single_block [insn_sput_y0, insn_return_void])\<rparr>"

definition class_A :: DexClass where
  "class_A = \<lparr>get_type = ''LA;'', is_external = False, get_sfields = [A_x, A_kept, A_unset],
              get_ifields = [A_i, A_vol], get_dmethods = [A_clinit, A_get, A_init, A_spin],
              get_vmethods = [A_virt], get_clinit = Some A_clinit, get_ctors = [A_init]\<rparr>"

definition class_B :: DexClass where
  "class_B = \<lparr>get_type = ''LB;'', is_external = False, get_sfields = [B_y],
              get_ifields = [], get_dmethods = [B_put], get_vmethods = [],
              get_clinit = None, get_ctors = []\<rparr>"

definition ex_scope :: Scope where
  "ex_scope = [class_A, class_B]"

definition ex_ext :: "FlatConstant Externals" where
  "ex_ext =
     \<lparr>resolve_field = (\<lambda>ref. if ref = ''A.x'' then Some A_x
                              else if ref = ''A.kept'' then Some A_kept
                              else if ref = ''A.i'' then Some A_i
                              else if ref = ''B.y'' then Some B_y else None),
      resolve_method = (\<lambda>ref search.
                          if ref = ''A.get'' \<and> search = Static then Some A_get
                          else if ref = ''A.virt'' \<and> search = InterfaceVirtual then Some A_virt
                          else None),
      opcode_to_search = (\<lambda>insn. if opcode insn = OPCODE_INVOKE_STATIC then Static
                                 else if opcode insn = OPCODE_INVOKE_VIRTUAL then Virtual
                                 else if opcode insn = OPCODE_INVOKE_DIRECT then Direct
                                 else if opcode insn = OPCODE_INVOKE_SUPER then Super
                                 else if opcode insn = OPCODE_INVOKE_INTERFACE then Interface
                                 else Any),
      encoded_value = (\<lambda>f. Constant 0),
      signed_constant_zero = Constant 0\<rparr>"

definition ex_env :: "FlatConstant ConstantEnvironment" where
  "ex_env =
     \<lparr>reg_env = (\<lambda>r. if r = 0 then Constant 1 else if r = 1 then Constant 2
                      else if r = 2 then Constant 42 else if r = 3 then Constant 7 else Top),
      get_field_environment = (\<lambda>f. Top)\<rparr>"

definition ex_exit_env :: "FlatConstant ConstantEnvironment" where
  "ex_exit_env =
     \<lparr>reg_env = (\<lambda>r. Top),
      get_field_environment = (\<lambda>f. if f = A_x then Constant 2
                                    else if f = A_kept then Constant 5 else Top)\<rparr>"

definition ex_fp_iter :: "FlatConstant FixpointIterator" where
  "ex_fp_iter = (\<lambda>method.
     \<lparr>get_entry_state_at = (\<lambda>b. ex_env),
      get_exit_state_at = (\<lambda>b. ex_exit_env),
      analyze_instruction = (\<lambda>insn env is_last. env)\<rparr>)"

definition ex_call_graph :: "FlatConstant CallGraph" where
  "ex_call_graph = \<lparr>cg_return_value = (\<lambda>insn. Constant 42),
                    cg_method_is_dynamic = (\<lambda>method. False)\<rparr>"

definition ex_wps :: "FlatConstant WholeProgramState" where
  "ex_wps = \<lparr>m_known_fields = {A_x}, m_known_methods = {A_get},
             m_field_partition = [A_x \<mapsto> Constant 2, A_kept \<mapsto> Constant 5],
             m_method_partition = [A_get \<mapsto> Constant 42],
             m_field_blocklist = {}, m_call_graph = None\<rparr>"

definition ex_wps_cg :: "FlatConstant WholeProgramState" where
  "ex_wps_cg = ex_wps\<lparr>m_call_graph := Some ex_call_graph\<rparr>"

section \<open>Auxiliary facts\<close>

subsection \<open>Facts about partitions and the reduction\<close>

lemma partition_get_set:
  "partition_get (partition_set k v p) k' = (if k' = k then v else partition_get p k')"
  by (simp add: partition_get_def partition_set_def)

lemma partition_get_empty: "partition_get Map.empty k = bot"
  by (simp add: partition_get_def)

lemma partition_set_set:
  "partition_set k v (partition_set k u p) = partition_set k v p"
  by (simp add: partition_set_def)

lemma partition_get_update:
  "partition_get (partition_update k h p) k' =
     (if k' = k then h (partition_get p k) else partition_get p k')"
  by (simp add: partition_update_def partition_get_set)

lemma partition_set_present:
  "v \<noteq> bot \<Longrightarrow> partition_set k v p k = Some v"
  by (simp add: partition_set_def)

lemma join_values_unfold:
  "vs \<noteq> [] \<Longrightarrow>
   join_values k vs p = partition_set k (fold (\<lambda>v a. sup a v) vs (partition_get p k)) p"
proof (induction vs arbitrary: p)
  case Nil
  then show ?case by simp
next
  case (Cons v vs)
  show ?case
  proof (cases "vs = []")
    case True
    then show ?thesis by (simp add: partition_update_def)
  next
    case False
    then show ?thesis
      using Cons.IH [of "partition_update k (\<lambda>c. sup c v) p", OF False]
      by (simp add: partition_update_def partition_get_set partition_set_set)
  qed
qed

lemma fold_join_permute:
  fixes vs vs' :: "'v::bounded_lattice list"
  assumes "mset vs = mset vs'"
  shows "fold (\<lambda>v a. sup a v) vs = fold (\<lambda>v a. sup a v) vs'"
  by (rule fold_multiset_equiv) (auto simp: fun_eq_iff sup.assoc sup.left_commute sup.commute assms)

lemma partition_get_join_values:
  "partition_get (join_values k vs p) k' =
     (if k' = k then fold (\<lambda>v a. sup a v) vs (partition_get p k) else partition_get p k')"
  by (induction vs arbitrary: p) (simp_all add: partition_get_update)

lemma join_values_permute:
  assumes "mset vs = mset vs'"
  shows "join_values k vs p = join_values k vs' p"
proof (cases "vs = []")
  case True
  with assms show ?thesis by simp
next
  case False
  with assms have "vs' \<noteq> []" by auto
  with False show ?thesis
    by (simp add: join_values_unfold fold_join_permute [OF assms])
qed

lemma reduce_append: "reduce (xs @ ys) p = reduce ys (reduce xs p)"
  by (induction xs p rule: reduce.induct) simp_all

subsection \<open>Facts about the hooks and the example state\<close>

lemma env_get_set: "env_get (env_set r v env) r' = (if r' = r then v else env_get env r')"
  by (simp add: env_get_def env_set_def)

lemma ex_has_call_graph: "has_call_graph ex_wps_cg" "\<not> has_call_graph ex_wps"
  by (simp_all add: has_call_graph_def ex_wps_cg_def ex_wps_def)

lemma ex_cg_value: "get_return_value_from_cg ex_wps_cg insn = Constant 42"
  by (simp add: get_return_value_from_cg_def ex_wps_cg_def ex_call_graph_def)

lemma ex_cg_dynamic: "\<not> method_is_dynamic ex_wps_cg m"
  by (simp add: method_is_dynamic_def ex_wps_cg_def ex_call_graph_def)

lemma ex_return_value_A_get: "get_return_value ex_wps A_get = Constant 42"
  by (simp add: get_return_value_def ex_wps_def partition_get_def)

lemma ex_resolve_static_get:
  "resolve_method ex_ext (get_method insn_invoke_static_get)
     (opcode_to_search ex_ext insn_invoke_static_get) = Some A_get"
  by (simp add: ex_ext_def insn_invoke_static_get_def)

lemma ex_resolve_interface_virt:
  "resolve_method ex_ext (get_method insn_invoke_interface_virt)
     (opcode_to_search ex_ext insn_invoke_interface_virt) = None"
  "opcode_to_search ex_ext insn_invoke_interface_virt = Interface"
  "resolve_method ex_ext (get_method insn_invoke_interface_virt) InterfaceVirtual = Some A_virt"
  by (simp_all add: ex_ext_def insn_invoke_interface_virt_def)

lemma ex_resolve_virtual_virt:
  "resolve_method ex_ext (get_method insn_invoke_virtual_virt)
     (opcode_to_search ex_ext insn_invoke_virtual_virt) = None"
  "opcode_to_search ex_ext insn_invoke_virtual_virt = Virtual"
  "resolve_method ex_ext (get_method insn_invoke_virtual_virt) InterfaceVirtual = Some A_virt"
  by (simp_all add: ex_ext_def insn_invoke_virtual_virt_def)

lemma ex_get_field_value_A_x: "get_field_value ex_wps A_x = Constant 2"
  by (simp add: get_field_value_def ex_wps_def partition_get_def A_x_def A_kept_def)

lemma ex_get_field_value_A_kept: "get_field_value ex_wps A_kept = Top"
  by (simp add: get_field_value_def ex_wps_def partition_get_def A_x_def A_kept_def top_FlatConstant_def)

subsection \<open>Facts about \<^verbatim>\<open>set_fields_in_partition\<close> and \<^verbatim>\<open>collect_instance_finals\<close>\<close>

lemma set_fields_loop_get:
  "set_fields_loop cls fe fs p = Some p' \<Longrightarrow>
   partition_get p' f = (if f \<in> set fs then fe f else partition_get p f)"
proof (induction fs arbitrary: p)
  case Nil
  then show ?case by simp
next
  case (Cons a fs)
  from Cons.prems have ok: "\<not> (fe a \<noteq> top \<and> f_get_class a \<noteq> get_type cls)"
    and rest: "set_fields_loop cls fe fs (partition_set a (fe a) p) = Some p'"
    by (auto simp: Let_def split: if_splits)
  from Cons.IH [OF rest] show ?case
    by (auto simp: partition_get_set)
qed

lemma set_fields_loop_aborts:
  "set_fields_loop cls fe fs p = None \<longleftrightarrow>
   (\<exists>f \<in> set fs. fe f \<noteq> top \<and> f_get_class f \<noteq> get_type cls)"
  by (induction fs arbitrary: p) (auto simp: Let_def)

lemma fold_set_top:
  "fold (\<lambda>field e. e(field := top)) fs fe f = (if f \<in> set fs then top else fe f)"
  by (induction fs arbitrary: fe) auto

lemma instance_finals_loop_known:
  "fst (instance_finals_loop el bl fs (known, fe)) =
     known \<union> {f \<in> set fs. f \<in> el \<and> f_get_class f \<notin> bl}"
  by (induction fs arbitrary: known fe) auto

lemma instance_finals_loop_env:
  "snd (instance_finals_loop el bl fs (known, fe)) f =
     (if f \<in> set fs \<and> \<not> (f \<in> el \<and> f_get_class f \<notin> bl) then top else fe f)"
  by (induction fs arbitrary: known fe) auto

subsection \<open>Facts about the known sets and the seeding\<close>

lemma collect_preserves:
  "collect ext scope fp_iter dai wps = Some w \<Longrightarrow>
   m_known_fields w = m_known_fields wps \<and> m_known_methods w = m_known_methods wps \<and>
   m_field_blocklist w = m_field_blocklist wps \<and> m_call_graph w = m_call_graph wps"
  by (auto simp: collect_def Let_def split: option.splits prod.splits)

lemma fold_known_field_step:
  "fold (known_field_step bl) fs known =
     known \<union> {f \<in> set fs. f_get_class f \<notin> bl \<and>
                  (if f_is_static f then \<not> f_root f
                   else \<not> f_is_external f \<and> \<not> f_is_volatile f \<and> f_can_delete f)}"
  by (induction fs arbitrary: known)
    (auto simp: known_field_step_def not_eligible_ifield_def Let_def)

lemma fold_known_non_true_virtual_step:
  "fold known_non_true_virtual_step ms known =
     known \<union> {m \<in> set ms. \<not> m_root m \<and> m_get_code m \<noteq> None}"
  by (induction ms arbitrary: known) (auto simp: known_non_true_virtual_step_def)

lemma fold_known_non_virtual_step:
  "fold known_non_virtual_step ms known =
     known \<union> {m \<in> set ms. \<not> m_is_virtual m \<and> m_get_code m \<noteq> None}"
  by (induction ms arbitrary: known) (auto simp: known_non_virtual_step_def)

lemma ctor_known_sets:
  assumes "WholeProgramState_ctor ext scope fp_iter ntv bl dai = Some w"
  shows "m_known_fields w =
           {f \<in> set (walk_fields scope). f_get_class f \<notin> bl \<and>
              (if f_is_static f then \<not> f_root f
               else \<not> f_is_external f \<and> \<not> f_is_volatile f \<and> f_can_delete f)}"
    and "m_known_methods w =
           {m \<in> set ntv. \<not> m_root m \<and> m_get_code m \<noteq> None} \<union>
           {m \<in> set (walk_methods scope). \<not> m_is_virtual m \<and> m_get_code m \<noteq> None}"
    and "m_field_blocklist w = bl" and "m_call_graph w = None"
  using assms
  by (auto simp: WholeProgramState_ctor_def Let_def fold_known_field_step
      fold_known_non_true_virtual_step fold_known_non_virtual_step walk_code_def
      split: option.splits dest!: collect_preserves)

lemma initialize_ifields_fold_get:
  "partition_get
     (fold (\<lambda>field p.
             if not_eligible_ifield field then p
             else (let value = (if field \<in> dai then bot else z)
                   in partition_set field value p)) fs p) f =
   (if f \<in> set fs \<and> \<not> not_eligible_ifield f then (if f \<in> dai then bot else z)
    else partition_get p f)"
  by (induction fs arbitrary: p) (auto simp: partition_get_set Let_def)

lemma initialize_ifields_fold_other:
  "f \<notin> set fs \<or> not_eligible_ifield f \<Longrightarrow>
   fold (\<lambda>field p.
             if not_eligible_ifield field then p
             else (let value = (if field \<in> dai then bot else z)
                   in partition_set field value p)) fs p f = p f"
  by (induction fs arbitrary: p) (auto simp: partition_set_def Let_def)

subsection \<open>Facts about the recorded values and the reduction\<close>

lemma recorded_Nil: "recorded [] k = []"
  by (simp add: recorded_def)

lemma recorded_update:
  "mset (recorded (concurrent_map_update k (\<lambda>s. s @ [v]) tmp) k') =
     mset (recorded tmp k') + (if k' = k then {#v#} else {#})"
  by (induction tmp) (auto simp: recorded_def)

lemma recorded_update_other:
  "k' \<noteq> k \<Longrightarrow> recorded (concurrent_map_update k h tmp) k' = recorded tmp k'"
  by (induction tmp) (auto simp: recorded_def)

lemma partition_get_reduce:
  "partition_get (reduce tmp p) k =
     fold (\<lambda>v a. sup a v) (recorded tmp k) (partition_get p k)"
proof (induction tmp p rule: reduce.induct)
  case (1 p)
  then show ?case by (simp add: recorded_def)
next
  case (2 k' vs rest p)
  then show ?case
    by (simp add: recorded_def partition_get_join_values)
qed




subsection \<open>Facts about the walk of the collector\<close>

lemma collect_field_values_recorded:
  assumes "collect_field_values ext known insn env ccls ft = Some ft'"
  shows "mset (recorded ft' f) =
           mset (recorded ft f) +
           (if stores_to ext insn f \<and> f \<in> known \<and>
               \<not> (is_an_sput (opcode insn) \<and> Some (f_get_class f) = ccls)
            then {#env_get env (srcs insn ! 0)#} else {#})"
  using assms
  by (auto simp: collect_field_values_def stores_to_def src_def recorded_update
      split: option.splits if_splits)


lemma collect_field_values_succeeds:
  "has_store_or_return_operand insn \<Longrightarrow>
   collect_field_values ext known insn env ccls ft \<noteq> None"
  by (auto simp: collect_field_values_def has_store_or_return_operand_def src_def
      split: option.splits)

lemma collect_return_values_succeeds:
  "has_store_or_return_operand insn \<Longrightarrow> collect_return_values insn env method mt \<noteq> None"
  by (auto simp: collect_return_values_def has_store_or_return_operand_def src_def Let_def
      split: option.splits)

lemma collect_insns_invariant:
  assumes "collect_insns ext known ia method insns env (ft, mt) = Some (ft', mt')"
    and "I V ft mt"
    and "\<And>insn env V ft mt ft' mt'.
           insn \<in> set insns \<Longrightarrow> I V ft mt \<Longrightarrow>
           collect_field_values ext known insn env (clinit_cls_of method) ft = Some ft' \<Longrightarrow>
           collect_return_values insn env method mt = Some mt' \<Longrightarrow>
           I (insert (method, insn) V) ft' mt'"
  shows "I (V \<union> {method} \<times> set insns) ft' mt'"
  using assms
proof (induction insns arbitrary: env V ft mt)
  case Nil
  then show ?case by simp
next
  case (Cons insn rest)
  let ?env = "analyze_instruction ia insn env (rest = [])"
  from Cons.prems(1) obtain ft1 mt1
    where f: "collect_field_values ext known insn ?env (clinit_cls_of method) ft = Some ft1"
      and r: "collect_return_values insn ?env method mt = Some mt1"
      and rest: "collect_insns ext known ia method rest ?env (ft1, mt1) = Some (ft', mt')"
    by (auto simp: Let_def split: option.splits)
  have here: "insn \<in> set (insn # rest)" by simp
  have i1: "I (insert (method, insn) V) ft1 mt1"
    by (rule Cons.prems(3) [OF here Cons.prems(2) f r])
  have "I (insert (method, insn) V \<union> {method} \<times> set rest) ft' mt'"
  proof (rule Cons.IH [OF rest i1])
    fix i e W f m f' m'
    assume a: "i \<in> set rest" and b: "I W f m"
      and c: "collect_field_values ext known i e (clinit_cls_of method) f = Some f'"
      and d: "collect_return_values i e method m = Some m'"
    from a have a': "i \<in> set (insn # rest)" by simp
    show "I (insert (method, i) W) f' m'" by (rule Cons.prems(3) [OF a' b c d])
  qed
  moreover have "insert (method, insn) V \<union> {method} \<times> set rest =
      V \<union> {method} \<times> set (insn # rest)"
    by auto
  ultimately show ?case by simp
qed

lemma collect_blocks_invariant:
  assumes "collect_blocks ext known ia method bs (ft, mt) = Some (ft', mt')"
    and "I V ft mt"
    and "\<And>insn env V ft mt ft' mt'.
           insn \<in> set (concat (map block_insns bs)) \<Longrightarrow> I V ft mt \<Longrightarrow>
           collect_field_values ext known insn env (clinit_cls_of method) ft = Some ft' \<Longrightarrow>
           collect_return_values insn env method mt = Some mt' \<Longrightarrow>
           I (insert (method, insn) V) ft' mt'"
  shows "I (V \<union> {method} \<times> set (concat (map block_insns bs))) ft' mt'"
  using assms
proof (induction bs arbitrary: V ft mt)
  case Nil
  then show ?case by simp
next
  case (Cons b bs)
  from Cons.prems(1) obtain ft1 mt1
    where blk: "collect_insns ext known ia method (block_insns b) (get_entry_state_at ia b)
                (ft, mt) = Some (ft1, mt1)"
      and rest: "collect_blocks ext known ia method bs (ft1, mt1) = Some (ft', mt')"
    by (auto simp: Let_def split: option.splits)
  have i1: "I (V \<union> {method} \<times> set (block_insns b)) ft1 mt1"
  proof (rule collect_insns_invariant [where I = I, OF blk Cons.prems(2)])
    fix i e W f m f' m'
    assume a: "i \<in> set (block_insns b)" and b: "I W f m"
      and c: "collect_field_values ext known i e (clinit_cls_of method) f = Some f'"
      and d: "collect_return_values i e method m = Some m'"
    from a have a': "i \<in> set (concat (map block_insns (b # bs)))" by simp
    show "I (insert (method, i) W) f' m'" by (rule Cons.prems(3) [OF a' b c d])
  qed
  have "I (V \<union> {method} \<times> set (block_insns b) \<union>
           {method} \<times> set (concat (map block_insns bs))) ft' mt'"
  proof (rule Cons.IH [OF rest i1])
    fix i e W f m f' m'
    assume a: "i \<in> set (concat (map block_insns bs))" and b: "I W f m"
      and c: "collect_field_values ext known i e (clinit_cls_of method) f = Some f'"
      and d: "collect_return_values i e method m = Some m'"
    from a have a': "i \<in> set (concat (map block_insns (b # bs)))" by simp
    show "I (insert (method, i) W) f' m'" by (rule Cons.prems(3) [OF a' b c d])
  qed
  moreover have "V \<union> {method} \<times> set (block_insns b) \<union>
           {method} \<times> set (concat (map block_insns bs)) =
      V \<union> {method} \<times> set (concat (map block_insns (b # bs)))"
    by auto
  ultimately show ?case by simp
qed

lemma collect_method_invariant:
  assumes "collect_method ext known fp_iter method (ft, mt) = Some (ft', mt')"
    and "I V ft mt"
    and "\<And>insn env V ft mt ft' mt'.
           insn \<in> set (method_insns method) \<Longrightarrow> I V ft mt \<Longrightarrow>
           collect_field_values ext known insn env (clinit_cls_of method) ft = Some ft' \<Longrightarrow>
           collect_return_values insn env method mt = Some mt' \<Longrightarrow>
           I (insert (method, insn) V) ft' mt'"
  shows "I (V \<union> {method} \<times> set (method_insns method)) ft' mt'"
proof (cases "m_get_code method")
  case None
  with assms(1,2) show ?thesis by (simp add: collect_method_def method_insns_def)
next
  case (Some cfg)
  with assms(1) have blk: "collect_blocks ext known (fp_iter method) method (blocks cfg) (ft, mt) =
      Some (ft', mt')"
    by (simp add: collect_method_def)
  have "I (V \<union> {method} \<times> set (concat (map block_insns (blocks cfg)))) ft' mt'"
  proof (rule collect_blocks_invariant [where I = I, OF blk assms(2)])
    fix i e W f m f' m'
    assume a: "i \<in> set (concat (map block_insns (blocks cfg)))" and b: "I W f m"
      and c: "collect_field_values ext known i e (clinit_cls_of method) f = Some f'"
      and d: "collect_return_values i e method m = Some m'"
    from a have a': "i \<in> set (method_insns method)" by (simp add: method_insns_def Some)
    show "I (insert (method, i) W) f' m'" by (rule assms(3) [OF a' b c d])
  qed
  then show ?thesis by (simp add: method_insns_def Some)
qed

lemma collect_methods_invariant:
  assumes "collect_methods ext known fp_iter ms (ft, mt) = Some (ft', mt')"
    and "I V ft mt"
    and "\<And>method insn env V ft mt ft' mt'.
           method \<in> set ms \<Longrightarrow> insn \<in> set (method_insns method) \<Longrightarrow> I V ft mt \<Longrightarrow>
           collect_field_values ext known insn env (clinit_cls_of method) ft = Some ft' \<Longrightarrow>
           collect_return_values insn env method mt = Some mt' \<Longrightarrow>
           I (insert (method, insn) V) ft' mt'"
  shows "I (V \<union> (\<Union>method \<in> set ms. {method} \<times> set (method_insns method))) ft' mt'"
  using assms
proof (induction ms arbitrary: V ft mt)
  case Nil
  then show ?case by simp
next
  case (Cons meth ms)
  from Cons.prems(1) obtain ft1 mt1
    where m: "collect_method ext known fp_iter meth (ft, mt) = Some (ft1, mt1)"
      and rest: "collect_methods ext known fp_iter ms (ft1, mt1) = Some (ft', mt')"
    by (auto split: option.splits)
  have here: "meth \<in> set (meth # ms)" by simp
  have i1: "I (V \<union> {meth} \<times> set (method_insns meth)) ft1 mt1"
  proof (rule collect_method_invariant [where I = I, OF m Cons.prems(2)])
    fix i e W f m f' m'
    assume a: "i \<in> set (method_insns meth)" and b: "I W f m"
      and c: "collect_field_values ext known i e (clinit_cls_of meth) f = Some f'"
      and d: "collect_return_values i e meth m = Some m'"
    show "I (insert (meth, i) W) f' m'" by (rule Cons.prems(3) [OF here a b c d])
  qed
  have "I (V \<union> {meth} \<times> set (method_insns meth) \<union>
           (\<Union>meth \<in> set ms. {meth} \<times> set (method_insns meth))) ft' mt'"
  proof (rule Cons.IH [OF rest i1])
    fix method' i e W f m f' m'
    assume m': "method' \<in> set ms" and a: "i \<in> set (method_insns method')" and b: "I W f m"
      and c: "collect_field_values ext known i e (clinit_cls_of method') f = Some f'"
      and d: "collect_return_values i e method' m = Some m'"
    from m' have m'': "method' \<in> set (meth # ms)" by simp
    show "I (insert (method', i) W) f' m'" by (rule Cons.prems(3) [OF m'' a b c d])
  qed
  moreover have "V \<union> {meth} \<times> set (method_insns meth) \<union>
           (\<Union>meth \<in> set ms. {meth} \<times> set (method_insns meth)) =
      V \<union> (\<Union>meth \<in> set (meth # ms). {meth} \<times> set (method_insns meth))"
    by auto
  ultimately show ?case by simp
qed

lemma collect_insns_succeeds:
  "\<forall>insn \<in> set insns. has_store_or_return_operand insn \<Longrightarrow>
   collect_insns ext known ia method insns env tmp \<noteq> None"
proof (induction insns arbitrary: env tmp)
  case Nil
  then show ?case by simp
next
  case (Cons insn rest)
  obtain ft mt where tmp: "tmp = (ft, mt)" by (cases tmp)
  let ?env = "analyze_instruction ia insn env (rest = [])"
  from Cons.prems have h: "has_store_or_return_operand insn"
    and r: "\<forall>insn \<in> set rest. has_store_or_return_operand insn" by simp_all
  obtain ft1
    where f: "collect_field_values ext known insn ?env (clinit_cls_of method) ft = Some ft1"
    using collect_field_values_succeeds [OF h, of ext known ?env "clinit_cls_of method" ft]
    by auto
  obtain mt1 where m: "collect_return_values insn ?env method mt = Some mt1"
    using collect_return_values_succeeds [OF h, of ?env "method" mt] by auto
  have "collect_insns ext known ia method rest ?env (ft1, mt1) \<noteq> None"
    by (rule Cons.IH [OF r])
  then show ?case
    using f m by (simp add: tmp Let_def)
qed

lemma collect_blocks_succeeds:
  "\<forall>insn \<in> set (concat (map block_insns bs)). has_store_or_return_operand insn \<Longrightarrow>
   collect_blocks ext known ia method bs tmp \<noteq> None"
proof (induction bs arbitrary: tmp)
  case Nil
  then show ?case by simp
next
  case (Cons b bs)
  from Cons.prems have h: "\<forall>insn \<in> set (block_insns b). has_store_or_return_operand insn"
    and r: "\<forall>insn \<in> set (concat (map block_insns bs)). has_store_or_return_operand insn"
    by simp_all
  obtain tmp1
    where t: "collect_insns ext known ia method (block_insns b) (get_entry_state_at ia b) tmp =
                Some tmp1"
    using collect_insns_succeeds [OF h, of ext known ia "method" "get_entry_state_at ia b" tmp]
    by auto
  have "collect_blocks ext known ia method bs tmp1 \<noteq> None"
    by (rule Cons.IH [OF r])
  then show ?case
    using t by (simp add: Let_def)
qed

lemma collect_method_succeeds:
  "\<forall>insn \<in> set (method_insns method). has_store_or_return_operand insn \<Longrightarrow>
   collect_method ext known fp_iter method tmp \<noteq> None"
proof (cases "m_get_code method")
  case None
  then show ?thesis by (simp add: collect_method_def)
next
  case (Some cfg)
  assume "\<forall>insn \<in> set (method_insns method). has_store_or_return_operand insn"
  then have "\<forall>insn \<in> set (concat (map block_insns (blocks cfg))). has_store_or_return_operand insn"
    by (simp add: method_insns_def Some)
  from collect_blocks_succeeds [OF this] show ?thesis
    by (simp add: collect_method_def Some)
qed

lemma collect_methods_succeeds:
  "operands_present ms \<Longrightarrow> collect_methods ext known fp_iter ms tmp \<noteq> None"
proof (induction ms arbitrary: tmp)
  case Nil
  then show ?case by simp
next
  case (Cons meth ms)
  from Cons.prems have h: "\<forall>insn \<in> set (method_insns meth). has_store_or_return_operand insn"
    and r: "operands_present ms"
    by (simp_all add: operands_present_def)
  obtain tmp1 where t: "collect_method ext known fp_iter meth tmp = Some tmp1"
    using collect_method_succeeds [OF h, of ext known fp_iter tmp] by auto
  have "collect_methods ext known fp_iter ms tmp1 \<noteq> None"
    by (rule Cons.IH [OF r])
  then show ?case
    using t by simp
qed

lemma collect_methods_field_unchanged:
  assumes "collect_methods ext known fp_iter ms (ft, mt) = Some (ft', mt')"
    and "\<forall>method \<in> set ms. \<forall>insn \<in> set (method_insns method).
           \<not> (stores_to ext insn F \<and> F \<in> known \<and>
              \<not> (is_an_sput (opcode insn) \<and> Some (f_get_class F) = clinit_cls_of method))"
  shows "mset (recorded ft' F) = mset (recorded ft F)"
proof -
  let ?I = "\<lambda>(V :: (DexMethod \<times> IRInstruction) set) f (m :: (DexMethod, 'a) ConcurrentMap).
              mset (recorded f F) = mset (recorded ft F)"
  have "?I ({} \<union> (\<Union>method \<in> set ms. {method} \<times> set (method_insns method))) ft' mt'"
  proof (rule collect_methods_invariant [where I = ?I, OF assms(1)])
    show "mset (recorded ft F) = mset (recorded ft F)" by simp
  next
    fix meth insn env V f m f' m'
    assume "meth \<in> set ms" "insn \<in> set (method_insns meth)"
      and i: "mset (recorded f F) = mset (recorded ft F)"
      and c: "collect_field_values ext known insn env (clinit_cls_of meth) f = Some f'"
    with assms(2) have "\<not> (stores_to ext insn F \<and> F \<in> known \<and>
              \<not> (is_an_sput (opcode insn) \<and> Some (f_get_class F) = clinit_cls_of meth))"
      by blast
    with collect_field_values_recorded [OF c, of F] i
    show "mset (recorded f' F) = mset (recorded ft F)" by simp
  qed
  then show ?thesis .
qed



subsection \<open>Facts about the constructor and the example program\<close>

lemma ctor_unfold:
  assumes "WholeProgramState_ctor ext scope fp_iter ntv bl dai = Some w"
  obtains p0 ft mt where
    "analyze_clinits ext scope fp_iter Map.empty = Some p0"
    "collect_methods ext (m_known_fields w) fp_iter (walk_methods scope) ([], []) = Some (ft, mt)"
    "m_field_partition w = reduce ft (initialize_ifields ext scope p0 dai)"
    "m_method_partition w = reduce mt Map.empty"
proof -
  from assms obtain p0 wps0 where
    p0: "analyze_clinits ext scope fp_iter Map.empty = Some p0"
    and c: "collect ext scope fp_iter dai wps0 = Some w"
    and f0: "m_field_partition wps0 = p0" and m0: "m_method_partition wps0 = Map.empty"
    by (auto simp: WholeProgramState_ctor_def Let_def split: option.splits)
  from collect_preserves [OF c] have k: "m_known_fields wps0 = m_known_fields w" by simp
  from c obtain ft mt where
    "collect_methods ext (m_known_fields wps0) fp_iter (walk_methods scope) ([], []) = Some (ft, mt)"
    "w = wps0\<lparr>m_field_partition := reduce ft (initialize_ifields ext scope (m_field_partition wps0) dai),
              m_method_partition := reduce mt (m_method_partition wps0)\<rparr>"
    by (auto simp: collect_def Let_def split: option.splits prod.splits)
  with p0 f0 m0 k show ?thesis
    by (intro that [of p0 ft mt]) simp_all
qed

lemma ctor_succeeds:
  assumes "analyze_clinits ext scope fp_iter Map.empty = Some p0"
    and "operands_present (walk_methods scope)"
  shows "\<exists>w. WholeProgramState_ctor ext scope fp_iter ntv bl dai = Some w"
proof -
  let ?known = "fold (known_field_step bl) (walk_fields scope) {}"
  obtain tmp where "collect_methods ext ?known fp_iter (walk_methods scope) ([], []) = Some tmp"
    using collect_methods_succeeds [OF assms(2), of ext ?known fp_iter "([], [])"] by auto
  then show ?thesis
    using assms(1)
    by (cases tmp) (simp add: WholeProgramState_ctor_def Let_def collect_def)
qed

lemmas ex_field_defs = A_x_def A_kept_def A_unset_def A_i_def A_vol_def B_y_def
lemmas ex_insn_defs = insn_sput_x0_def insn_sput_x1_def insn_sput_y0_def insn_iput_i3_def
  insn_return_void_def insn_return_2_def insn_nop_def
lemmas ex_method_defs = A_clinit_def A_get_def A_init_def A_spin_def A_virt_def B_put_def

lemma ex_walk_fields: "walk_fields ex_scope = [A_i, A_vol, A_x, A_kept, A_unset, B_y]"
  by (simp add: walk_fields_def ex_scope_def class_A_def class_B_def)

lemma ex_walk_methods:
  "walk_methods ex_scope = [A_clinit, A_get, A_init, A_spin, A_virt, B_put]"
  by (simp add: walk_methods_def ex_scope_def class_A_def class_B_def)

lemma ex_method_insns:
  "method_insns A_clinit = [insn_sput_x0, insn_sput_x1, insn_return_void]"
  "method_insns A_get = [insn_return_2]"
  "method_insns A_init = [insn_iput_i3, insn_return_void]"
  "method_insns A_spin = [insn_nop]"
  "method_insns A_virt = [insn_return_void]"
  "method_insns B_put = [insn_sput_y0, insn_return_void]"
  by (simp_all add: method_insns_def ex_method_defs single_block_def)

lemma ex_operands_present: "operands_present (walk_methods ex_scope)"
  by (simp add: operands_present_def ex_walk_methods ex_method_insns
      has_store_or_return_operand_def ex_insn_defs is_an_sput_def is_an_iput_def
      is_a_return_def)

lemma ex_analyze_clinits:
  "analyze_clinits ex_ext ex_scope ex_fp_iter Map.empty =
     Some [A_x \<mapsto> Constant 2, A_kept \<mapsto> Constant 5, A_unset \<mapsto> Top,
           B_y \<mapsto> Constant 0]"
  by (simp add: ex_scope_def class_A_def class_B_def set_fields_in_partition_def
      ex_fp_iter_def ex_exit_env_def A_clinit_def single_block_def
      set_encoded_values_def env_set_field_def top_environment_def ex_ext_def
      top_FlatConstant_def bot_FlatConstant_def partition_set_def ex_field_defs)

lemma ex_ctor_succeeds:
  "\<exists>w. WholeProgramState_ctor ex_ext ex_scope ex_fp_iter ntv bl dai = Some w"
  by (rule ctor_succeeds [OF ex_analyze_clinits ex_operands_present])

lemma ex_ext_simps:
  "resolve_field ex_ext ''A.x'' = Some A_x"
  "resolve_field ex_ext ''A.kept'' = Some A_kept"
  "resolve_field ex_ext ''A.i'' = Some A_i"
  "resolve_field ex_ext ''B.y'' = Some B_y"
  "signed_constant_zero ex_ext = Constant 0"
  "encoded_value ex_ext f = Constant 0"
  by (simp_all add: ex_ext_def)

lemma ex_fp_iter_simps:
  "get_entry_state_at (ex_fp_iter m) b = ex_env"
  "get_exit_state_at (ex_fp_iter m) b = ex_exit_env"
  "analyze_instruction (ex_fp_iter m) insn env is_last = env"
  by (simp_all add: ex_fp_iter_def)

lemma ex_run_values:
  "\<exists>w. WholeProgramState_ctor ex_ext ex_scope ex_fp_iter [A_virt] {} {} = Some w \<and>
       partition_get (m_field_partition w) A_x = Constant 2 \<and>
       partition_get (m_field_partition w) A_kept = Constant 5 \<and>
       partition_get (m_field_partition w) B_y = Top \<and>
       partition_get (m_field_partition w) A_i = Top \<and>
       partition_get (m_field_partition w) A_vol = Bottom \<and>
       partition_get (m_method_partition w) A_get = Constant 42 \<and>
       partition_get (m_method_partition w) A_spin = Bottom \<and>
       partition_get (m_method_partition w) A_virt = Top"
  by (simp add: WholeProgramState_ctor_def ex_analyze_clinits collect_def ex_walk_methods
      ex_walk_fields collect_method_def ex_method_defs single_block_def ex_insn_defs
      collect_field_values_def collect_return_values_def is_an_sput_def is_an_iput_def
      is_a_return_def src_def env_get_def ex_env_def ex_fp_iter_simps ex_ext_simps
      known_field_step_def not_eligible_ifield_def ex_field_defs initialize_ifields_def
      partition_get_def partition_set_def partition_update_def
      top_FlatConstant_def bot_FlatConstant_def)

subsection \<open>Facts about \<^verbatim>\<open>analyze_clinits\<close>\<close>

lemma set_fields_loop_binding:
  "set_fields_loop cls fe fs p = Some p' \<Longrightarrow>
   p' f = (if f \<in> set fs then (if fe f = bot then None else Some (fe f)) else p f)"
proof (induction fs arbitrary: p)
  case Nil
  then show ?case by simp
next
  case (Cons a fs)
  from Cons.prems have rest: "set_fields_loop cls fe fs (partition_set a (fe a) p) = Some p'"
    by (auto simp: Let_def split: if_splits)
  from Cons.IH [OF rest] show ?case
    by (auto simp: partition_set_def)
qed

lemma set_encoded_values_field:
  "get_field_environment (set_encoded_values ext cls env) f =
     (if f \<in> set (get_sfields cls) then encoded_value ext f else get_field_environment env f)"
proof -
  have "get_field_environment
          (fold (\<lambda>sfield e. env_set_field sfield (encoded_value ext sfield) e) fs env) f =
        (if f \<in> set fs then encoded_value ext f else get_field_environment env f)"
    for fs
    by (induction fs arbitrary: env) (auto simp: env_set_field_def)
  then show ?thesis by (simp add: set_encoded_values_def)
qed

lemma analyze_clinits_Cons:
  "analyze_clinits ext (cls # scope) fp_iter p =
     (case static_field_env ext fp_iter cls of
        None \<Rightarrow> None
      | Some fe \<Rightarrow>
          (case set_fields_loop cls fe (get_sfields cls) p of
             None \<Rightarrow> None
           | Some p1 \<Rightarrow> analyze_clinits ext scope fp_iter p1))"
  by (simp add: static_field_env_def set_fields_in_partition_def Let_def split: option.splits)

lemma analyze_clinits_other:
  "analyze_clinits ext scope fp_iter p = Some p' \<Longrightarrow>
   \<forall>c \<in> set scope. f \<notin> set (get_sfields c) \<Longrightarrow> p' f = p f"
proof (induction scope arbitrary: p)
  case Nil
  then show ?case by simp
next
  case (Cons cls scope)
  from Cons.prems(1) obtain fe p1 where
    l: "set_fields_loop cls fe (get_sfields cls) p = Some p1"
    and r: "analyze_clinits ext scope fp_iter p1 = Some p'"
    by (auto simp: analyze_clinits_Cons simp del: analyze_clinits.simps split: option.splits)
  from Cons.prems(2) have "f \<notin> set (get_sfields cls)" "\<forall>c \<in> set scope. f \<notin> set (get_sfields c)"
    by simp_all
  with Cons.IH [OF r] set_fields_loop_binding [OF l, of f] show ?case by simp
qed

lemma analyze_clinits_binding:
  assumes "analyze_clinits ext scope fp_iter p = Some p'"
    and "cls \<in> set scope" and "f \<in> set (get_sfields cls)"
    and "\<forall>c \<in> set scope. f \<in> set (get_sfields c) \<longrightarrow> c = cls"
  shows "\<exists>fe. static_field_env ext fp_iter cls = Some fe \<and>
              p' f = (if fe f = bot then None else Some (fe f))"
  using assms
proof (induction scope arbitrary: p)
  case Nil
  then show ?case by simp
next
  case (Cons c scope)
  from Cons.prems(1) obtain fe p1 where
    e: "static_field_env ext fp_iter c = Some fe"
    and l: "set_fields_loop c fe (get_sfields c) p = Some p1"
    and r: "analyze_clinits ext scope fp_iter p1 = Some p'"
    by (auto simp: analyze_clinits_Cons simp del: analyze_clinits.simps split: option.splits)
  show ?case
  proof (cases "\<exists>c' \<in> set scope. f \<in> set (get_sfields c')")
    case True
    with Cons.prems(4) have "cls \<in> set scope" by auto
    moreover from Cons.prems(4) have "\<forall>c \<in> set scope. f \<in> set (get_sfields c) \<longrightarrow> c = cls"
      by simp
    ultimately show ?thesis
      using Cons.IH [OF r _ Cons.prems(3)] by blast
  next
    case False
    with Cons.prems(2,3) have c: "c = cls" by auto
    from False have "p' f = p1 f"
      using analyze_clinits_other [OF r, of f] by blast
    with set_fields_loop_binding [OF l, of f] Cons.prems(3) e c show ?thesis
      by simp
  qed
qed

lemma analyze_clinits_succeeds:
  assumes "\<forall>cls \<in> set scope.
             (\<forall>clinit. get_clinit cls = Some clinit \<longrightarrow> m_get_code clinit \<noteq> None) \<and>
             (\<forall>f \<in> set (get_sfields cls). f_get_class f = get_type cls)"
  shows "analyze_clinits ext scope fp_iter p \<noteq> None"
  using assms
proof (induction scope arbitrary: p)
  case Nil
  then show ?case by simp
next
  case (Cons cls scope)
  from Cons.prems have code: "\<forall>clinit. get_clinit cls = Some clinit \<longrightarrow> m_get_code clinit \<noteq> None"
    and own: "\<forall>f \<in> set (get_sfields cls). f_get_class f = get_type cls"
    and rest: "\<forall>cls \<in> set scope.
             (\<forall>clinit. get_clinit cls = Some clinit \<longrightarrow> m_get_code clinit \<noteq> None) \<and>
             (\<forall>f \<in> set (get_sfields cls). f_get_class f = get_type cls)"
    by simp_all
  from code obtain fe where e: "static_field_env ext fp_iter cls = Some fe"
    by (cases "get_clinit cls") (auto simp: static_field_env_def)
  from own have "set_fields_loop cls fe (get_sfields cls) p \<noteq> None"
    by (simp add: set_fields_loop_aborts)
  then obtain p1 where l: "set_fields_loop cls fe (get_sfields cls) p = Some p1" by auto
  from Cons.IH [OF rest] show ?case
    by (simp add: analyze_clinits_Cons e l del: analyze_clinits.simps)
qed

lemma recorded_unchanged_from_Nil:
  "mset (recorded tmp k) = mset (recorded [] k) \<Longrightarrow> recorded tmp k = []"
  by (simp add: recorded_Nil)

subsection \<open>Facts about the values the walk records for a field\<close>

lemma store_values_Nil: "store_values ext known m F [] = []"
  by (simp add: store_values_def)

lemma store_values_Cons:
  "store_values ext known m F ((insn, env) # states) =
     (if stores_to ext insn F \<and> F \<in> known \<and> \<not> in_own_clinit m insn F
      then [env_get env (srcs insn ! 0)] else []) @ store_values ext known m F states"
  by (simp add: store_values_def)

lemma store_values_append:
  "store_values ext known m F (xs @ ys) =
     store_values ext known m F xs @ store_values ext known m F ys"
  by (simp add: store_values_def)

lemma own_clinit_as_passed:
  "(is_an_sput (opcode insn) \<and> Some (f_get_class F) = clinit_cls_of m) = in_own_clinit m insn F"
  by (auto simp: in_own_clinit_def)

lemma collect_insns_store_values:
  assumes "collect_insns ext known ia m insns env (ft, mt) = Some (ft', mt')"
  shows "mset (recorded ft' F) =
           mset (recorded ft F) + mset (store_values ext known m F (replay_envs ia insns env))"
  using assms
proof (induction insns arbitrary: env ft mt)
  case Nil
  then show ?case by (simp add: store_values_Nil)
next
  case (Cons insn rest)
  let ?env = "analyze_instruction ia insn env (rest = [])"
  from Cons.prems obtain ft1 mt1
    where f: "collect_field_values ext known insn ?env (clinit_cls_of m) ft = Some ft1"
      and rest: "collect_insns ext known ia m rest ?env (ft1, mt1) = Some (ft', mt')"
    by (auto simp: Let_def split: option.splits)
  from collect_field_values_recorded [OF f, of F]
  have "mset (recorded ft1 F) =
          mset (recorded ft F) +
          mset (if stores_to ext insn F \<and> F \<in> known \<and> \<not> in_own_clinit m insn F
                then [env_get ?env (srcs insn ! 0)] else [])"
    by (simp add: own_clinit_as_passed)
  with Cons.IH [OF rest] show ?case
    by (simp add: Let_def store_values_Cons)
qed

lemma collect_blocks_store_values:
  assumes "collect_blocks ext known ia m bs (ft, mt) = Some (ft', mt')"
  shows "mset (recorded ft' F) =
           mset (recorded ft F) +
           mset (store_values ext known m F
                   (concat (map (\<lambda>b. replay_envs ia (block_insns b) (get_entry_state_at ia b))
                              bs)))"
  using assms
proof (induction bs arbitrary: ft mt)
  case Nil
  then show ?case by (simp add: store_values_Nil)
next
  case (Cons b bs)
  from Cons.prems obtain ft1 mt1
    where blk: "collect_insns ext known ia m (block_insns b) (get_entry_state_at ia b)
                (ft, mt) = Some (ft1, mt1)"
      and rest: "collect_blocks ext known ia m bs (ft1, mt1) = Some (ft', mt')"
    by (auto simp: Let_def split: option.splits)
  from collect_insns_store_values [OF blk, of F] Cons.IH [OF rest] show ?case
    by (simp add: store_values_append)
qed

lemma collect_method_store_values:
  assumes "collect_method ext known fp_iter m (ft, mt) = Some (ft', mt')"
  shows "mset (recorded ft' F) =
           mset (recorded ft F) + mset (store_values ext known m F (method_states fp_iter m))"
proof (cases "m_get_code m")
  case None
  with assms show ?thesis
    by (simp add: collect_method_def method_states_def store_values_Nil)
next
  case (Some cfg)
  with assms have "collect_blocks ext known (fp_iter m) m (blocks cfg) (ft, mt) = Some (ft', mt')"
    by (simp add: collect_method_def)
  from collect_blocks_store_values [OF this, of F] show ?thesis
    by (simp add: method_states_def Some)
qed

lemma collect_methods_store_values:
  assumes "collect_methods ext known fp_iter ms (ft, mt) = Some (ft', mt')"
  shows "mset (recorded ft' F) =
           mset (recorded ft F) + mset (field_store_values ext known fp_iter ms F)"
  using assms
proof (induction ms arbitrary: ft mt)
  case Nil
  then show ?case by (simp add: field_store_values_def)
next
  case (Cons m ms)
  from Cons.prems obtain ft1 mt1
    where one: "collect_method ext known fp_iter m (ft, mt) = Some (ft1, mt1)"
      and rest: "collect_methods ext known fp_iter ms (ft1, mt1) = Some (ft', mt')"
    by (auto split: option.splits)
  from collect_method_store_values [OF one, of F] Cons.IH [OF rest] show ?case
    by (simp add: field_store_values_def)
qed

lemma fold_join_upper:
  fixes vs :: "'v::bounded_lattice list"
  shows "v \<in> set vs \<Longrightarrow> v \<le> fold (\<lambda>v a. sup a v) vs a"
proof (induction vs arbitrary: a)
  case Nil
  then show ?case by simp
next
  case (Cons x xs)
  have grow: "b \<le> fold (\<lambda>v a. sup a v) ys b" for b :: 'v and ys
  proof (induction ys arbitrary: b)
    case Nil
    show ?case by simp
  next
    case (Cons y ys)
    have "b \<le> sup b y" by simp
    also have "\<dots> \<le> fold (\<lambda>v a. sup a v) ys (sup b y)" by (rule Cons.IH)
    finally show ?case by simp
  qed
  show ?case
  proof (cases "v = x")
    case True
    have "v \<le> sup a x" by (simp add: True)
    also have "\<dots> \<le> fold (\<lambda>v a. sup a v) xs (sup a x)" by (rule grow)
    finally show ?thesis by simp
  next
    case False
    with Cons.prems have "v \<in> set xs" by simp
    from Cons.IH [OF this] show ?thesis by simp
  qed
qed

lemma ctor_field_value:
  assumes "WholeProgramState_ctor ext scope fp_iter ntv bl dai = Some w"
  obtains p0 where
    "analyze_clinits ext scope fp_iter Map.empty = Some p0"
    "partition_get (m_field_partition w) F =
       fold (\<lambda>v a. sup a v)
         (field_store_values ext (m_known_fields w) fp_iter (walk_methods scope) F)
         (partition_get (initialize_ifields ext scope p0 dai) F)"
proof -
  from assms obtain p0 ft mt where
    p0: "analyze_clinits ext scope fp_iter Map.empty = Some p0"
    and walk: "collect_methods ext (m_known_fields w) fp_iter (walk_methods scope) ([], []) =
                 Some (ft, mt)"
    and fp: "m_field_partition w = reduce ft (initialize_ifields ext scope p0 dai)"
    by (rule ctor_unfold)
  from collect_methods_store_values [OF walk, of F]
  have "mset (recorded ft F) =
          mset (field_store_values ext (m_known_fields w) fp_iter (walk_methods scope) F)"
    by (simp add: recorded_Nil)
  from fold_join_permute [OF this]
  have "partition_get (m_field_partition w) F =
       fold (\<lambda>v a. sup a v)
         (field_store_values ext (m_known_fields w) fp_iter (walk_methods scope) F)
         (partition_get (initialize_ifields ext scope p0 dai) F)"
    by (simp add: fp partition_get_reduce)
  with p0 show ?thesis by (rule that)
qed

lemma ex_method_states:
  "method_states ex_fp_iter A_clinit =
     [(insn_sput_x0, ex_env), (insn_sput_x1, ex_env), (insn_return_void, ex_env)]"
  "method_states ex_fp_iter A_get = [(insn_return_2, ex_env)]"
  "method_states ex_fp_iter A_init = [(insn_iput_i3, ex_env), (insn_return_void, ex_env)]"
  "method_states ex_fp_iter A_spin = [(insn_nop, ex_env)]"
  "method_states ex_fp_iter A_virt = [(insn_return_void, ex_env)]"
  "method_states ex_fp_iter B_put = [(insn_sput_y0, ex_env), (insn_return_void, ex_env)]"
  by (simp_all add: method_states_def ex_method_defs single_block_def ex_fp_iter_simps)

lemma ex_stores_to:
  "stores_to ex_ext insn_sput_x0 f \<longleftrightarrow> f = A_x"
  "stores_to ex_ext insn_sput_x1 f \<longleftrightarrow> f = A_x"
  "stores_to ex_ext insn_sput_y0 f \<longleftrightarrow> f = B_y"
  "stores_to ex_ext insn_iput_i3 f \<longleftrightarrow> f = A_i"
  "\<not> stores_to ex_ext insn_return_void f"
  "\<not> stores_to ex_ext insn_return_2 f"
  "\<not> stores_to ex_ext insn_nop f"
  by (auto simp: stores_to_def ex_insn_defs ex_ext_simps is_an_sput_def is_an_iput_def)

lemma ex_in_own_clinit:
  "in_own_clinit A_clinit insn_sput_x0 A_x" "in_own_clinit A_clinit insn_sput_x1 A_x"
  "\<not> in_own_clinit B_put insn_sput_y0 B_y" "\<not> in_own_clinit A_init insn_iput_i3 A_i"
  by (simp_all add: in_own_clinit_def ex_insn_defs ex_method_defs ex_field_defs is_an_sput_def)

lemma ex_fields_differ:
  "A_x \<noteq> B_y" "B_y \<noteq> A_x" "A_x \<noteq> A_i" "A_i \<noteq> A_x" "B_y \<noteq> A_i" "A_i \<noteq> B_y"
  by (simp_all add: ex_field_defs)

lemma ex_field_store_values:
  assumes "A_x \<in> known" "B_y \<in> known" "A_i \<in> known"
  shows "field_store_values ex_ext known ex_fp_iter (walk_methods ex_scope) A_x = []"
    and "field_store_values ex_ext known ex_fp_iter (walk_methods ex_scope) B_y = [Constant 1]"
    and "field_store_values ex_ext known ex_fp_iter (walk_methods ex_scope) A_i = [Constant 7]"
proof -
  have operand: "env_get ex_env (srcs insn_sput_y0 ! 0) = Constant 1"
    "env_get ex_env (srcs insn_iput_i3 ! 0) = Constant 7"
    by (simp_all add: env_get_def ex_env_def insn_sput_y0_def insn_iput_i3_def)
  show "field_store_values ex_ext known ex_fp_iter (walk_methods ex_scope) A_x = []"
    and "field_store_values ex_ext known ex_fp_iter (walk_methods ex_scope) B_y = [Constant 1]"
    and "field_store_values ex_ext known ex_fp_iter (walk_methods ex_scope) A_i = [Constant 7]"
    using assms
    by (simp_all add: field_store_values_def ex_walk_methods ex_method_states store_values_def
        ex_stores_to ex_in_own_clinit operand ex_fields_differ)
qed

section \<open>Claims\<close>

text \<open>
  C1. In \<open>collect_field_values\<close>, a static store whose field resolves to a field declared
  by the class of the initializer being walked (\<open>clinit_cls\<close>) records nothing: the
  temporary map is returned as it was. Every other store whose field resolves to a known
  field appends the abstract value of the stored operand (source register 0) to the
  field's vector. The walk passes a class only for a method that is a class initializer,
  and the environment it passes is the one replayed up to the store: the values the walk
  records for a field are, as a multiset, exactly \<open>field_store_values\<close>, the operands of
  the stores to the field (when it is known) other than the static stores inside an
  initializer of the field's declaring class. \<open>collect\<close> joins exactly these values onto
  the seeded partition value, and the constructor joins them onto what \<open>analyze_clinits\<close>
  and the seeding wrote. So for a state the constructor returns: the value of every store
  to a known field outside the field's own initializer is below the field's final value;
  the final value of a static field of a class with an initializer is the join of its
  binding at the initializer's exit with the values stored elsewhere; and if every store
  to the field in the program is a static store inside an initializer of the field's
  declaring class, the final value is exactly the binding at the initializer's exit,
  with no intermediate store joined into it.
\<close>

theorem own_clinit_stores_are_skipped:
  fixes ext :: "'v::bounded_lattice Externals"
  shows
  "(is_an_sput (opcode insn) \<and> resolve_field ext (get_field insn) = Some field \<and>
    clinit_cls = Some (f_get_class field) \<longrightarrow>
      collect_field_values ext known insn env clinit_cls tmp = Some tmp) \<and>
   (stores_to ext insn field \<and> field \<in> known \<and>
    \<not> (is_an_sput (opcode insn) \<and> clinit_cls = Some (f_get_class field)) \<longrightarrow>
      collect_field_values ext known insn env clinit_cls tmp =
        (if srcs insn = [] then None
         else Some (concurrent_map_update field (\<lambda>s. s @ [env_get env (srcs insn ! 0)]) tmp))) \<and>
   (\<forall>ft mt.
      collect_methods ext known fp_iter ms ([], []) = Some (ft, mt) \<longrightarrow>
      mset (recorded ft field) = mset (field_store_values ext known fp_iter ms field)) \<and>
   (\<forall>w.
      collect ext scope fp_iter definitely_assigned_ifields wps = Some w \<longrightarrow>
      partition_get (m_field_partition w) field =
        fold (\<lambda>v a. sup a v)
          (field_store_values ext (m_known_fields wps) fp_iter (walk_methods scope) field)
          (partition_get
             (initialize_ifields ext scope (m_field_partition wps) definitely_assigned_ifields)
             field)) \<and>
   (\<forall>w.
      WholeProgramState_ctor ext scope fp_iter non_true_virtuals field_blocklist
        definitely_assigned_ifields = Some w \<longrightarrow>
      (\<exists>p0. analyze_clinits ext scope fp_iter Map.empty = Some p0 \<and>
         partition_get (m_field_partition w) field =
           fold (\<lambda>v a. sup a v)
             (field_store_values ext (m_known_fields w) fp_iter (walk_methods scope) field)
             (partition_get (initialize_ifields ext scope p0 definitely_assigned_ifields)
                field))) \<and>
   (\<forall>w m i e.
      WholeProgramState_ctor ext scope fp_iter non_true_virtuals field_blocklist
        definitely_assigned_ifields = Some w \<and>
      m \<in> set (walk_methods scope) \<and> (i, e) \<in> set (method_states fp_iter m) \<and>
      stores_to ext i field \<and> field \<in> m_known_fields w \<and> \<not> in_own_clinit m i field \<longrightarrow>
      env_get e (srcs i ! 0) \<le> partition_get (m_field_partition w) field) \<and>
   (\<forall>w cls clinit.
      WholeProgramState_ctor ext scope fp_iter non_true_virtuals field_blocklist
        definitely_assigned_ifields = Some w \<and>
      cls \<in> set scope \<and> field \<in> set (get_sfields cls) \<and>
      (\<forall>c \<in> set scope. field \<in> set (get_sfields c) \<longrightarrow> c = cls) \<and>
      f_is_static field \<and> get_clinit cls = Some clinit \<longrightarrow>
      (\<exists>cfg. m_get_code clinit = Some cfg \<and>
         partition_get (m_field_partition w) field =
           fold (\<lambda>v a. sup a v)
             (field_store_values ext (m_known_fields w) fp_iter (walk_methods scope) field)
             (get_field_environment (get_exit_state_at (fp_iter clinit) (exit_block cfg))
                field))) \<and>
   (\<forall>w cls clinit.
      WholeProgramState_ctor ext scope fp_iter non_true_virtuals field_blocklist
        definitely_assigned_ifields = Some w \<and>
      cls \<in> set scope \<and> field \<in> set (get_sfields cls) \<and>
      (\<forall>c \<in> set scope. field \<in> set (get_sfields c) \<longrightarrow> c = cls) \<and>
      f_is_static field \<and> get_clinit cls = Some clinit \<and>
      (\<forall>m \<in> set (walk_methods scope). \<forall>i \<in> set (method_insns m).
         stores_to ext i field \<longrightarrow>
           is_an_sput (opcode i) \<and> m_is_clinit m \<and> m_get_class m = f_get_class field) \<longrightarrow>
      (\<exists>cfg. m_get_code clinit = Some cfg \<and>
         partition_get (m_field_partition w) field =
           get_field_environment (get_exit_state_at (fp_iter clinit) (exit_block cfg)) field))"
proof -
  have skip: "collect_field_values ext known insn env clinit_cls tmp = Some tmp"
    if "is_an_sput (opcode insn) \<and> resolve_field ext (get_field insn) = Some field \<and>
        clinit_cls = Some (f_get_class field)"
    using that by (simp add: collect_field_values_def)
  have stored: "collect_field_values ext known insn env clinit_cls tmp =
        (if srcs insn = [] then None
         else Some (concurrent_map_update field (\<lambda>s. s @ [env_get env (srcs insn ! 0)]) tmp))"
    if "stores_to ext insn field \<and> field \<in> known \<and>
        \<not> (is_an_sput (opcode insn) \<and> clinit_cls = Some (f_get_class field))"
    using that by (auto simp: collect_field_values_def stores_to_def src_def)
  have walked: "mset (recorded ft field) = mset (field_store_values ext known fp_iter ms field)"
    if "collect_methods ext known fp_iter ms ([], []) = Some (ft, mt)" for ft mt
    using collect_methods_store_values [OF that, of field] by (simp add: recorded_Nil)
  have collected: "partition_get (m_field_partition w) field =
        fold (\<lambda>v a. sup a v)
          (field_store_values ext (m_known_fields wps) fp_iter (walk_methods scope) field)
          (partition_get
             (initialize_ifields ext scope (m_field_partition wps) definitely_assigned_ifields)
             field)"
    if c: "collect ext scope fp_iter definitely_assigned_ifields wps = Some w" for w
  proof -
    from c obtain ft mt where
      walk: "collect_methods ext (m_known_fields wps) fp_iter (walk_methods scope) ([], []) =
               Some (ft, mt)"
      and fp: "m_field_partition w =
           reduce ft (initialize_ifields ext scope (m_field_partition wps)
                        definitely_assigned_ifields)"
      by (auto simp: collect_def Let_def split: option.splits prod.splits)
    from collect_methods_store_values [OF walk, of field]
    have "mset (recorded ft field) =
        mset (field_store_values ext (m_known_fields wps) fp_iter (walk_methods scope) field)"
      by (simp add: recorded_Nil)
    from fold_join_permute [OF this] show ?thesis
      by (simp add: fp partition_get_reduce)
  qed
  have summary: "\<exists>p0. analyze_clinits ext scope fp_iter Map.empty = Some p0 \<and>
         partition_get (m_field_partition w) field =
           fold (\<lambda>v a. sup a v)
             (field_store_values ext (m_known_fields w) fp_iter (walk_methods scope) field)
             (partition_get (initialize_ifields ext scope p0 definitely_assigned_ifields)
                field)"
    if ctor: "WholeProgramState_ctor ext scope fp_iter non_true_virtuals field_blocklist
        definitely_assigned_ifields = Some w" for w
    using ctor_field_value [OF ctor, of field] by blast
  have reaches: "env_get e (srcs i ! 0) \<le> partition_get (m_field_partition w) field"
    if ctor: "WholeProgramState_ctor ext scope fp_iter non_true_virtuals field_blocklist
        definitely_assigned_ifields = Some w"
      and m: "m \<in> set (walk_methods scope)" and st: "(i, e) \<in> set (method_states fp_iter m)"
      and store: "stores_to ext i field" "field \<in> m_known_fields w"
        "\<not> in_own_clinit m i field"
    for w m i e
  proof -
    from st store have "env_get e (srcs i ! 0) \<in>
        set (store_values ext (m_known_fields w) m field (method_states fp_iter m))"
      by (force simp: store_values_def)
    with m have "env_get e (srcs i ! 0) \<in>
        set (field_store_values ext (m_known_fields w) fp_iter (walk_methods scope) field)"
      by (auto simp: field_store_values_def)
    from fold_join_upper [OF this] summary [OF ctor] show ?thesis
      by auto
  qed
  have static_summary: "\<exists>cfg. m_get_code clinit = Some cfg \<and>
         partition_get (m_field_partition w) field =
           fold (\<lambda>v a. sup a v)
             (field_store_values ext (m_known_fields w) fp_iter (walk_methods scope) field)
             (get_field_environment (get_exit_state_at (fp_iter clinit) (exit_block cfg))
                field)"
    if ctor: "WholeProgramState_ctor ext scope fp_iter non_true_virtuals field_blocklist
        definitely_assigned_ifields = Some w"
      and cls: "cls \<in> set scope" "field \<in> set (get_sfields cls)"
        "\<forall>c \<in> set scope. field \<in> set (get_sfields c) \<longrightarrow> c = cls"
      and static: "f_is_static field" and clinit: "get_clinit cls = Some clinit"
    for w cls clinit
  proof -
    from ctor_field_value [OF ctor, of field] obtain p0 where
      p0: "analyze_clinits ext scope fp_iter Map.empty = Some p0"
      and v: "partition_get (m_field_partition w) field =
           fold (\<lambda>v a. sup a v)
             (field_store_values ext (m_known_fields w) fp_iter (walk_methods scope) field)
             (partition_get (initialize_ifields ext scope p0 definitely_assigned_ifields)
                field)"
      by blast
    have "initialize_ifields ext scope p0 definitely_assigned_ifields field = p0 field"
      unfolding initialize_ifields_def
      by (rule initialize_ifields_fold_other) (simp add: not_eligible_ifield_def static)
    then have seed: "partition_get (initialize_ifields ext scope p0 definitely_assigned_ifields)
        field = partition_get p0 field"
      by (simp add: partition_get_def)
    from analyze_clinits_binding [OF p0 cls] obtain fe where
      e: "static_field_env ext fp_iter cls = Some fe"
      and b: "p0 field = (if fe field = bot then None else Some (fe field))"
      by blast
    from b have "partition_get p0 field = fe field"
      by (simp add: partition_get_def)
    moreover from e clinit obtain cfg where "m_get_code clinit = Some cfg"
      "fe = get_field_environment (get_exit_state_at (fp_iter clinit) (exit_block cfg))"
      by (auto simp: static_field_env_def split: option.splits)
    ultimately show ?thesis using v seed by simp
  qed
  have whole: "\<exists>cfg. m_get_code clinit = Some cfg \<and>
         partition_get (m_field_partition w) field =
           get_field_environment (get_exit_state_at (fp_iter clinit) (exit_block cfg)) field"
    if ctor: "WholeProgramState_ctor ext scope fp_iter non_true_virtuals field_blocklist
        definitely_assigned_ifields = Some w"
      and cls: "cls \<in> set scope" "field \<in> set (get_sfields cls)"
        "\<forall>c \<in> set scope. field \<in> set (get_sfields c) \<longrightarrow> c = cls"
      and static: "f_is_static field" and clinit: "get_clinit cls = Some clinit"
      and own: "\<forall>m \<in> set (walk_methods scope). \<forall>i \<in> set (method_insns m).
         stores_to ext i field \<longrightarrow>
           is_an_sput (opcode i) \<and> m_is_clinit m \<and> m_get_class m = f_get_class field"
    for w cls clinit
  proof -
    from ctor obtain p0 ft mt where
      walk: "collect_methods ext (m_known_fields w) fp_iter (walk_methods scope) ([], []) =
                   Some (ft, mt)"
      by (rule ctor_unfold)
    from own have "\<forall>m \<in> set (walk_methods scope). \<forall>i \<in> set (method_insns m).
           \<not> (stores_to ext i field \<and> field \<in> m_known_fields w \<and>
              \<not> (is_an_sput (opcode i) \<and> Some (f_get_class field) = clinit_cls_of m))"
      by auto
    from collect_methods_field_unchanged [OF walk this]
    have "recorded ft field = []"
      by (rule recorded_unchanged_from_Nil)
    with collect_methods_store_values [OF walk, of field]
    have "field_store_values ext (m_known_fields w) fp_iter (walk_methods scope) field = []"
      by (simp add: recorded_Nil)
    with static_summary [OF ctor cls static clinit] show ?thesis by simp
  qed
  from skip stored walked collected summary reaches static_summary whole show ?thesis
    by blast
qed

theorem own_clinit_stores_are_skipped_witness:
  "collect_field_values ex_ext {A_x} insn_sput_x0 ex_env (Some ''LA;'') [] = Some [] \<and>
   collect_field_values ex_ext {A_x} insn_sput_x0 ex_env None [] = Some [(A_x, [Constant 1])] \<and>
   (\<exists>w. WholeProgramState_ctor ex_ext ex_scope ex_fp_iter [A_virt] {} {} = Some w \<and>
        field_store_values ex_ext (m_known_fields w) ex_fp_iter (walk_methods ex_scope) A_x = [] \<and>
        partition_get (m_field_partition w) A_x = Constant 2 \<and>
        field_store_values ex_ext (m_known_fields w) ex_fp_iter (walk_methods ex_scope) B_y =
          [Constant 1] \<and>
        partition_get (m_field_partition w) B_y = Top \<and>
        Constant 7 \<le> partition_get (m_field_partition w) A_i)"
proof -
  have insn: "is_an_sput (opcode insn_sput_x0)"
    "resolve_field ex_ext (get_field insn_sput_x0) = Some A_x"
    "f_get_class A_x = ''LA;''" "srcs insn_sput_x0 = [0]"
    "env_get ex_env 0 = Constant 1" "f_is_static A_x"
    by (simp_all add: insn_sput_x0_def is_an_sput_def ex_ext_simps A_x_def env_get_def
        ex_env_def)
  note skipped = own_clinit_stores_are_skipped
      [where insn = insn_sput_x0 and ext = ex_ext and field = A_x
         and clinit_cls = "Some ''LA;''" and known = "{A_x}" and env = ex_env and tmp = "[]",
       THEN conjunct1]
  have a: "collect_field_values ex_ext {A_x} insn_sput_x0 ex_env (Some ''LA;'') [] = Some []"
    using skipped insn by simp
  note stored = own_clinit_stores_are_skipped
      [where insn = insn_sput_x0 and ext = ex_ext and field = A_x
         and clinit_cls = None and known = "{A_x}" and env = ex_env and tmp = "[]",
       THEN conjunct2, THEN conjunct1]
  have b: "collect_field_values ex_ext {A_x} insn_sput_x0 ex_env None [] =
      Some [(A_x, [Constant 1])]"
    using stored insn by (simp add: stores_to_def)
  obtain w where w: "WholeProgramState_ctor ex_ext ex_scope ex_fp_iter [A_virt] {} {} = Some w"
    using ex_ctor_succeeds by blast
  have "m_known_fields w =
     {f \<in> set (walk_fields ex_scope). f_get_class f \<notin> {} \<and>
        (if f_is_static f then \<not> f_root f
         else \<not> f_is_external f \<and> \<not> f_is_volatile f \<and> f_can_delete f)}"
    by (rule ctor_known_sets(1) [OF w])
  then have known: "A_x \<in> m_known_fields w" "B_y \<in> m_known_fields w" "A_i \<in> m_known_fields w"
    by (simp_all add: ex_walk_fields ex_field_defs)
  note observed = ex_field_store_values [OF known]
  have cls: "class_A \<in> set ex_scope" "A_x \<in> set (get_sfields class_A)"
    "\<forall>c \<in> set ex_scope. A_x \<in> set (get_sfields c) \<longrightarrow> c = class_A"
    "get_clinit class_A = Some A_clinit"
    by (simp_all add: ex_scope_def class_A_def class_B_def ex_field_defs)
  have own: "\<forall>m \<in> set (walk_methods ex_scope). \<forall>i \<in> set (method_insns m).
         stores_to ex_ext i A_x \<longrightarrow>
           is_an_sput (opcode i) \<and> m_is_clinit m \<and> m_get_class m = f_get_class A_x"
  proof -
    have clinit: "m_is_clinit A_clinit" "m_get_class A_clinit = ''LA;''"
      by (simp_all add: A_clinit_def)
    show ?thesis
      by (simp add: ex_walk_methods ex_method_insns stores_to_def ex_insn_defs ex_ext_def
          is_an_sput_def is_an_iput_def ex_field_defs clinit)
  qed
  note exit_only = own_clinit_stores_are_skipped
      [where ext = ex_ext and field = A_x and scope = ex_scope and fp_iter = ex_fp_iter
         and non_true_virtuals = "[A_virt]" and field_blocklist = "{}"
         and definitely_assigned_ifields = "{}",
       THEN conjunct2, THEN conjunct2, THEN conjunct2, THEN conjunct2, THEN conjunct2,
       THEN conjunct2, THEN conjunct2, rule_format, of w class_A A_clinit]
  from w cls insn(6) own
  have "\<exists>cfg. m_get_code A_clinit = Some cfg \<and>
         partition_get (m_field_partition w) A_x =
           get_field_environment (get_exit_state_at (ex_fp_iter A_clinit) (exit_block cfg)) A_x"
    by (intro exit_only conjI)
  then have x: "partition_get (m_field_partition w) A_x = Constant 2"
    by (auto simp: ex_fp_iter_simps ex_exit_env_def)
  note summary = own_clinit_stores_are_skipped
      [where ext = ex_ext and field = B_y and scope = ex_scope and fp_iter = ex_fp_iter
         and non_true_virtuals = "[A_virt]" and field_blocklist = "{}"
         and definitely_assigned_ifields = "{}",
       THEN conjunct2, THEN conjunct2, THEN conjunct2, THEN conjunct2, THEN conjunct1,
       rule_format, OF w]
  from summary have "partition_get (m_field_partition w) B_y =
      sup (partition_get (initialize_ifields ex_ext ex_scope
             [A_x \<mapsto> Constant 2, A_kept \<mapsto> Constant 5, A_unset \<mapsto> Top, B_y \<mapsto> Constant 0] {}) B_y)
          (Constant 1)"
    by (simp add: ex_analyze_clinits observed)
  moreover have "initialize_ifields ex_ext ex_scope
      [A_x \<mapsto> Constant 2, A_kept \<mapsto> Constant 5, A_unset \<mapsto> Top, B_y \<mapsto> Constant 0] {} B_y =
      Some (Constant 0)"
    unfolding initialize_ifields_def
    by (subst initialize_ifields_fold_other) (simp_all add: not_eligible_ifield_def B_y_def)
  ultimately have y: "partition_get (m_field_partition w) B_y = Top"
    by (simp add: partition_get_def)
  have st: "A_init \<in> set (walk_methods ex_scope)"
    "(insn_iput_i3, ex_env) \<in> set (method_states ex_fp_iter A_init)"
    "stores_to ex_ext insn_iput_i3 A_i" "\<not> in_own_clinit A_init insn_iput_i3 A_i"
    by (simp_all add: ex_walk_methods ex_method_states ex_stores_to ex_in_own_clinit)
  have operand: "env_get ex_env (srcs insn_iput_i3 ! 0) = Constant 7"
    by (simp add: env_get_def ex_env_def insn_iput_i3_def)
  note reaches = own_clinit_stores_are_skipped
      [where ext = ex_ext and field = A_i and scope = ex_scope and fp_iter = ex_fp_iter
         and non_true_virtuals = "[A_virt]" and field_blocklist = "{}"
         and definitely_assigned_ifields = "{}",
       THEN conjunct2, THEN conjunct2, THEN conjunct2, THEN conjunct2, THEN conjunct2,
       THEN conjunct1, rule_format, of w A_init insn_iput_i3 ex_env]
  from w st known(3)
  have "env_get ex_env (srcs insn_iput_i3 ! 0) \<le> partition_get (m_field_partition w) A_i"
    by (intro reaches conjI)
  then have i: "Constant 7 \<le> partition_get (m_field_partition w) A_i"
    by (simp add: operand)
  from a b w observed(1,2) x y i show ?thesis by blast
qed



text \<open>
  C3. When the constructor returns a state, its known-field set is exactly the set of
  fields of the scope whose declaring class is not in the field blocklist and that are,
  if static, not rooted and, if not static, not external, not volatile and deletable;
  its known-method set is exactly the union of the methods of the non-true-virtual set
  that are not rooted and have code with the methods of the scope that are not virtual
  and have code. Read rule by rule: a field of a blocklisted class is never known; a
  static field of the scope (outside the blocklist) is known iff it is not rooted; an
  instance field of the scope (outside the blocklist) is known iff it is not external,
  not volatile and deletable; a (virtual) method of the non-true-virtual set is known
  iff it is not rooted and has code; every non-virtual method of the scope with code is
  known; nothing else is known.
\<close>

theorem known_sets_follow_classifier:
  assumes "WholeProgramState_ctor ext scope fp_iter non_true_virtuals field_blocklist
             definitely_assigned_ifields = Some wps"
  shows
  "m_known_fields wps =
     {f \<in> set (walk_fields scope). f_get_class f \<notin> field_blocklist \<and>
        (if f_is_static f then \<not> f_root f
         else \<not> f_is_external f \<and> \<not> f_is_volatile f \<and> f_can_delete f)} \<and>
   m_known_methods wps =
     {m \<in> set non_true_virtuals. \<not> m_root m \<and> m_get_code m \<noteq> None} \<union>
     {m \<in> set (walk_methods scope). \<not> m_is_virtual m \<and> m_get_code m \<noteq> None} \<and>
   (\<forall>f. f_get_class f \<in> field_blocklist \<longrightarrow> f \<notin> m_known_fields wps) \<and>
   (\<forall>f \<in> set (walk_fields scope). f_get_class f \<notin> field_blocklist \<and> f_is_static f \<longrightarrow>
      (f \<in> m_known_fields wps \<longleftrightarrow> \<not> f_root f)) \<and>
   (\<forall>f \<in> set (walk_fields scope). f_get_class f \<notin> field_blocklist \<and> \<not> f_is_static f \<longrightarrow>
      (f \<in> m_known_fields wps \<longleftrightarrow>
         \<not> f_is_external f \<and> \<not> f_is_volatile f \<and> f_can_delete f)) \<and>
   (\<forall>m \<in> set non_true_virtuals. m_is_virtual m \<longrightarrow>
      (m \<in> m_known_methods wps \<longleftrightarrow> \<not> m_root m \<and> m_get_code m \<noteq> None)) \<and>
   (\<forall>m \<in> set (walk_methods scope). \<not> m_is_virtual m \<and> m_get_code m \<noteq> None \<longrightarrow>
      m \<in> m_known_methods wps) \<and>
   (\<forall>f. f \<notin> set (walk_fields scope) \<longrightarrow> f \<notin> m_known_fields wps) \<and>
   (\<forall>m. m \<notin> set non_true_virtuals \<and> m \<notin> set (walk_methods scope) \<longrightarrow>
      m \<notin> m_known_methods wps)"
proof -
  note k = ctor_known_sets(1,2) [OF assms]
  show ?thesis
    unfolding k by auto
qed

theorem known_sets_follow_classifier_witness:
  "\<exists>w. WholeProgramState_ctor ex_ext ex_scope ex_fp_iter [A_virt] {''LB;''} {} = Some w \<and>
       A_x \<in> m_known_fields w \<and> A_kept \<notin> m_known_fields w \<and> A_i \<in> m_known_fields w \<and>
       A_vol \<notin> m_known_fields w \<and> B_y \<notin> m_known_fields w \<and>
       A_virt \<in> m_known_methods w \<and> A_get \<in> m_known_methods w \<and>
       B_put \<in> m_known_methods w"
proof -
  obtain w where w: "WholeProgramState_ctor ex_ext ex_scope ex_fp_iter [A_virt] {''LB;''} {} = Some w"
    using ex_ctor_succeeds by blast
  note t = known_sets_follow_classifier [OF w]
  from t have f: "m_known_fields w =
     {f \<in> set (walk_fields ex_scope). f_get_class f \<notin> {''LB;''} \<and>
        (if f_is_static f then \<not> f_root f
         else \<not> f_is_external f \<and> \<not> f_is_volatile f \<and> f_can_delete f)}"
    by (rule conjunct1)
  from t have m: "m_known_methods w =
     {m \<in> set [A_virt]. \<not> m_root m \<and> m_get_code m \<noteq> None} \<union>
     {m \<in> set (walk_methods ex_scope). \<not> m_is_virtual m \<and> m_get_code m \<noteq> None}"
    by blast
  have "A_x \<in> m_known_fields w" "A_kept \<notin> m_known_fields w" "A_i \<in> m_known_fields w"
    "A_vol \<notin> m_known_fields w" "B_y \<notin> m_known_fields w"
    unfolding f by (simp_all add: ex_walk_fields ex_field_defs)
  moreover have "A_virt \<in> m_known_methods w" "A_get \<in> m_known_methods w"
    "B_put \<in> m_known_methods w"
    unfolding m by (simp_all add: ex_walk_methods ex_method_defs)
  ultimately show ?thesis using w by blast
qed

text \<open>
  C4. \<open>analyze_clinits\<close> returns whenever every initializer of the scope has code and every
  static field is listed by its declaring class. When it returns, every static field of
  every class of the scope (a field being listed by one class) has the value the claim
  names: for a class without initializer, the abstract value of the field's encoded
  value; for a class with an initializer, the field's binding in the environment at the
  initializer's exit block. The binding is written explicitly: whenever the value is not
  Bottom the partition has an entry for the field, and a field that the exit
  environment does not bind (Top) gets the entry Top.
\<close>

theorem analyze_clinits_binds_every_static_field:
  fixes ext :: "'v::bounded_lattice Externals"
  shows
  "((\<forall>cls \<in> set scope.
       (\<forall>clinit. get_clinit cls = Some clinit \<longrightarrow> m_get_code clinit \<noteq> None) \<and>
       (\<forall>f \<in> set (get_sfields cls). f_get_class f = get_type cls)) \<longrightarrow>
    analyze_clinits ext scope fp_iter p \<noteq> None) \<and>
   (\<forall>p' cls f.
      analyze_clinits ext scope fp_iter p = Some p' \<and> cls \<in> set scope \<and>
      f \<in> set (get_sfields cls) \<and> (\<forall>c \<in> set scope. f \<in> set (get_sfields c) \<longrightarrow> c = cls) \<longrightarrow>
      (get_clinit cls = None \<longrightarrow>
         partition_get p' f = encoded_value ext f \<and>
         (encoded_value ext f \<noteq> bot \<longrightarrow> p' f = Some (encoded_value ext f))) \<and>
      (\<forall>clinit. get_clinit cls = Some clinit \<longrightarrow>
         (\<exists>cfg. m_get_code clinit = Some cfg \<and>
            partition_get p' f =
              get_field_environment (get_exit_state_at (fp_iter clinit) (exit_block cfg)) f \<and>
            (get_field_environment (get_exit_state_at (fp_iter clinit) (exit_block cfg)) f \<noteq> bot
             \<longrightarrow> p' f =
                  Some (get_field_environment
                          (get_exit_state_at (fp_iter clinit) (exit_block cfg)) f)))) \<and>
      (\<exists>fe. static_field_env ext fp_iter cls = Some fe \<and>
         (fe f = top \<longrightarrow> partition_get p' f = top \<and> ((top::'v) \<noteq> bot \<longrightarrow> p' f = Some top))))"
proof -
  have binds: "(get_clinit cls = None \<longrightarrow>
         partition_get p' f = encoded_value ext f \<and>
         (encoded_value ext f \<noteq> bot \<longrightarrow> p' f = Some (encoded_value ext f))) \<and>
      (\<forall>clinit. get_clinit cls = Some clinit \<longrightarrow>
         (\<exists>cfg. m_get_code clinit = Some cfg \<and>
            partition_get p' f =
              get_field_environment (get_exit_state_at (fp_iter clinit) (exit_block cfg)) f \<and>
            (get_field_environment (get_exit_state_at (fp_iter clinit) (exit_block cfg)) f \<noteq> bot
             \<longrightarrow> p' f =
                  Some (get_field_environment
                          (get_exit_state_at (fp_iter clinit) (exit_block cfg)) f)))) \<and>
      (\<exists>fe. static_field_env ext fp_iter cls = Some fe \<and>
         (fe f = top \<longrightarrow> partition_get p' f = top \<and> ((top::'v) \<noteq> bot \<longrightarrow> p' f = Some top)))"
    if a: "analyze_clinits ext scope fp_iter p = Some p'" "cls \<in> set scope"
      "f \<in> set (get_sfields cls)" "\<forall>c \<in> set scope. f \<in> set (get_sfields c) \<longrightarrow> c = cls"
    for p' cls f
  proof -
    from analyze_clinits_binding [OF a] obtain fe where
      e: "static_field_env ext fp_iter cls = Some fe"
      and b: "p' f = (if fe f = bot then None else Some (fe f))"
      by blast
    from b have g: "partition_get p' f = fe f"
      by (simp add: partition_get_def)
    show ?thesis
    proof (cases "get_clinit cls")
      case None
      with e have "fe f = encoded_value ext f"
        using a(3) by (auto simp: static_field_env_def set_encoded_values_field)
      with None e b g show ?thesis by auto
    next
      case (Some clinit)
      with e obtain cfg where "m_get_code clinit = Some cfg"
        "fe = get_field_environment (get_exit_state_at (fp_iter clinit) (exit_block cfg))"
        by (auto simp: static_field_env_def split: option.splits)
      with Some e b g show ?thesis by auto
    qed
  qed
  from analyze_clinits_succeeds [of scope ext fp_iter p] binds show ?thesis
    by blast
qed

theorem analyze_clinits_binds_every_static_field_witness:
  "\<exists>p'. analyze_clinits ex_ext ex_scope ex_fp_iter Map.empty = Some p' \<and>
        partition_get p' A_x = Constant 2 \<and> p' A_unset = Some Top \<and>
        partition_get p' B_y = Constant 0"
proof -
  note t = analyze_clinits_binds_every_static_field
    [where scope = ex_scope and ext = ex_ext and fp_iter = ex_fp_iter and p = Map.empty]
  have wf: "\<forall>cls \<in> set ex_scope.
       (\<forall>clinit. get_clinit cls = Some clinit \<longrightarrow> m_get_code clinit \<noteq> None) \<and>
       (\<forall>f \<in> set (get_sfields cls). f_get_class f = get_type cls)"
    by (simp add: ex_scope_def class_A_def class_B_def A_clinit_def ex_field_defs)
  with t obtain p' where p': "analyze_clinits ex_ext ex_scope ex_fp_iter Map.empty = Some p'"
    by blast
  have in_scope: "class_A \<in> set ex_scope" "class_B \<in> set ex_scope"
    "A_x \<in> set (get_sfields class_A)" "A_unset \<in> set (get_sfields class_A)"
    "B_y \<in> set (get_sfields class_B)"
    "\<forall>c \<in> set ex_scope. A_x \<in> set (get_sfields c) \<longrightarrow> c = class_A"
    "\<forall>c \<in> set ex_scope. A_unset \<in> set (get_sfields c) \<longrightarrow> c = class_A"
    "\<forall>c \<in> set ex_scope. B_y \<in> set (get_sfields c) \<longrightarrow> c = class_B"
    "get_clinit class_A = Some A_clinit" "get_clinit class_B = None"
    by (simp_all add: ex_scope_def class_A_def class_B_def ex_field_defs)
  have code: "m_get_code A_clinit =
      Some (single_block [insn_sput_x0, insn_sput_x1, insn_return_void])"
    by (simp add: A_clinit_def)
  have exit_env: "get_field_environment (get_exit_state_at (ex_fp_iter A_clinit) b) A_x = Constant 2"
    "get_field_environment (get_exit_state_at (ex_fp_iter A_clinit) b) A_unset = Top" for b
    by (simp_all add: ex_fp_iter_simps ex_exit_env_def ex_field_defs)
  have by_exit: "\<exists>cfg. m_get_code clinit = Some cfg \<and>
            partition_get p' f =
              get_field_environment (get_exit_state_at (ex_fp_iter clinit) (exit_block cfg)) f \<and>
            (get_field_environment (get_exit_state_at (ex_fp_iter clinit) (exit_block cfg)) f \<noteq> bot
             \<longrightarrow> p' f =
                  Some (get_field_environment
                          (get_exit_state_at (ex_fp_iter clinit) (exit_block cfg)) f))"
    if "cls \<in> set ex_scope" "f \<in> set (get_sfields cls)"
      "\<forall>c \<in> set ex_scope. f \<in> set (get_sfields c) \<longrightarrow> c = cls" "get_clinit cls = Some clinit"
    for cls f clinit
    using t p' that by blast
  have by_default: "partition_get p' f = encoded_value ex_ext f"
    if "cls \<in> set ex_scope" "f \<in> set (get_sfields cls)"
      "\<forall>c \<in> set ex_scope. f \<in> set (get_sfields c) \<longrightarrow> c = cls" "get_clinit cls = None"
    for cls f
    using t p' that by blast
  from by_exit [OF in_scope(1) in_scope(3) in_scope(6) in_scope(9)]
  have "partition_get p' A_x = Constant 2"
    by (simp add: code exit_env)
  moreover from by_exit [OF in_scope(1) in_scope(4) in_scope(7) in_scope(9)]
  have "p' A_unset = Some Top"
    by (simp add: code exit_env bot_FlatConstant_def)
  moreover from by_default [OF in_scope(2) in_scope(5) in_scope(8) in_scope(10)]
  have "partition_get p' B_y = Constant 0"
    by (simp add: ex_ext_simps)
  ultimately show ?thesis using p' by blast
qed

text \<open>
  C5. For every state the constructor returns and every field outside its known-field
  set, \<open>get_field_value\<close> is Top; it stays Top whatever field partition (and call graph)
  is put into the state, and \<open>analyze_gets_helper\<close> declines a read of such a field.
\<close>

theorem unknown_field_is_top:
  fixes wps :: "'v::bounded_lattice WholeProgramState"
  assumes "WholeProgramState_ctor ext scope fp_iter non_true_virtuals field_blocklist
             definitely_assigned_ifields = Some wps"
    and "field \<notin> m_known_fields wps"
  shows
  "get_field_value wps field = top \<and>
   (\<forall>p. get_field_value (wps\<lparr>m_field_partition := p\<rparr>) field = top) \<and>
   (\<forall>cg p. get_field_value (wps\<lparr>m_field_partition := p, m_call_graph := cg\<rparr>) field = top) \<and>
   (\<forall>insn env. resolve_field ext (get_field insn) = Some field \<longrightarrow>
      analyze_gets_helper ext (Some wps) insn env = (False, env))"
  using assms(2) by (simp add: get_field_value_def analyze_gets_helper_def)

theorem unknown_field_is_top_witness:
  "\<exists>w. WholeProgramState_ctor ex_ext ex_scope ex_fp_iter [A_virt] {} {} = Some w \<and>
       A_kept \<notin> m_known_fields w \<and>
       partition_get (m_field_partition w) A_kept = Constant 5 \<and>
       get_field_value w A_kept = Top \<and>
       analyze_gets_helper ex_ext (Some w) insn_sget_kept ex_env = (False, ex_env)"
proof -
  from ex_run_values obtain w
    where w: "WholeProgramState_ctor ex_ext ex_scope ex_fp_iter [A_virt] {} {} = Some w"
      and v: "partition_get (m_field_partition w) A_kept = Constant 5"
    by blast
  have "m_known_fields w =
     {f \<in> set (walk_fields ex_scope). f_get_class f \<notin> {} \<and>
        (if f_is_static f then \<not> f_root f
         else \<not> f_is_external f \<and> \<not> f_is_volatile f \<and> f_can_delete f)}"
    by (rule ctor_known_sets(1) [OF w])
  then have k: "A_kept \<notin> m_known_fields w"
    by (simp add: ex_walk_fields ex_field_defs)
  have r: "resolve_field ex_ext (get_field insn_sget_kept) = Some A_kept"
    by (simp add: ex_ext_simps insn_sget_kept_def)
  from unknown_field_is_top [OF w k] r
  have "get_field_value w A_kept = Top"
    "analyze_gets_helper ex_ext (Some w) insn_sget_kept ex_env = (False, ex_env)"
    by (simp_all add: top_FlatConstant_def)
  with w k v show ?thesis by blast
qed

text \<open>
  C6. \<open>initialize_ifields\<close> seeds every instance field of the scope that is not static,
  not external, not volatile and deletable: to Bottom if the field is in the
  definitely-assigned set, to the constant zero otherwise. It leaves the partition entry
  of every other field as it was. \<open>collect\<close> seeds before it reduces: the field partition
  it returns is the reduction of the walk's observations applied to the seeded
  partition, so that the final value of an eligible instance field is the join of its
  seed with the values recorded for it.
\<close>

theorem instance_fields_seeded_before_walk:
  fixes ext :: "'v::bounded_lattice Externals"
  shows
  "(\<forall>f \<in> set (walk_fields scope).
      \<not> f_is_static f \<and> \<not> f_is_external f \<and> \<not> f_is_volatile f \<and> f_can_delete f \<longrightarrow>
      partition_get (initialize_ifields ext scope p definitely_assigned_ifields) f =
        (if f \<in> definitely_assigned_ifields then bot else signed_constant_zero ext)) \<and>
   (\<forall>f. f \<notin> set (walk_fields scope) \<or> f_is_static f \<or> f_is_external f \<or> f_is_volatile f \<or>
        \<not> f_can_delete f \<longrightarrow>
      initialize_ifields ext scope p definitely_assigned_ifields f = p f) \<and>
   (\<forall>w. collect ext scope fp_iter definitely_assigned_ifields wps = Some w \<longrightarrow>
      (\<exists>ft mt.
         collect_methods ext (m_known_fields wps) fp_iter (walk_methods scope) ([], []) =
           Some (ft, mt) \<and>
         m_field_partition w =
           reduce ft (initialize_ifields ext scope (m_field_partition wps)
                        definitely_assigned_ifields) \<and>
         (\<forall>f \<in> set (walk_fields scope).
            \<not> f_is_static f \<and> \<not> f_is_external f \<and> \<not> f_is_volatile f \<and> f_can_delete f \<longrightarrow>
            partition_get (m_field_partition w) f =
              fold (\<lambda>v a. sup a v) (recorded ft f)
                (if f \<in> definitely_assigned_ifields then bot else signed_constant_zero ext))))"
proof -
  have seeded: "partition_get (initialize_ifields ext scope q definitely_assigned_ifields) f =
        (if f \<in> definitely_assigned_ifields then bot else signed_constant_zero ext)"
    if "f \<in> set (walk_fields scope)"
      "\<not> f_is_static f \<and> \<not> f_is_external f \<and> \<not> f_is_volatile f \<and> f_can_delete f"
    for f q
    unfolding initialize_ifields_def initialize_ifields_fold_get
    using that by (simp add: not_eligible_ifield_def)
  have untouched: "initialize_ifields ext scope p definitely_assigned_ifields f = p f"
    if "f \<notin> set (walk_fields scope) \<or> f_is_static f \<or> f_is_external f \<or> f_is_volatile f \<or>
        \<not> f_can_delete f" for f
    unfolding initialize_ifields_def
    by (rule initialize_ifields_fold_other) (use that in \<open>auto simp: not_eligible_ifield_def\<close>)
  have walk: "\<exists>ft mt.
         collect_methods ext (m_known_fields wps) fp_iter (walk_methods scope) ([], []) =
           Some (ft, mt) \<and>
         m_field_partition w =
           reduce ft (initialize_ifields ext scope (m_field_partition wps)
                        definitely_assigned_ifields) \<and>
         (\<forall>f \<in> set (walk_fields scope).
            \<not> f_is_static f \<and> \<not> f_is_external f \<and> \<not> f_is_volatile f \<and> f_can_delete f \<longrightarrow>
            partition_get (m_field_partition w) f =
              fold (\<lambda>v a. sup a v) (recorded ft f)
                (if f \<in> definitely_assigned_ifields then bot else signed_constant_zero ext))"
    if c: "collect ext scope fp_iter definitely_assigned_ifields wps = Some w" for w
  proof -
    from c obtain ft mt where
      cm: "collect_methods ext (m_known_fields wps) fp_iter (walk_methods scope) ([], []) =
             Some (ft, mt)"
      and fp: "m_field_partition w =
           reduce ft (initialize_ifields ext scope (m_field_partition wps)
                        definitely_assigned_ifields)"
      by (auto simp: collect_def Let_def split: option.splits prod.splits)
    have "\<forall>f \<in> set (walk_fields scope).
            \<not> f_is_static f \<and> \<not> f_is_external f \<and> \<not> f_is_volatile f \<and> f_can_delete f \<longrightarrow>
            partition_get (m_field_partition w) f =
              fold (\<lambda>v a. sup a v) (recorded ft f)
                (if f \<in> definitely_assigned_ifields then bot else signed_constant_zero ext)"
      by (simp add: fp partition_get_reduce seeded)
    with cm fp show ?thesis by blast
  qed
  from seeded untouched walk show ?thesis by blast
qed

theorem instance_fields_seeded_before_walk_witness:
  "partition_get (initialize_ifields ex_ext ex_scope Map.empty {}) A_i = Constant 0 \<and>
   partition_get (initialize_ifields ex_ext ex_scope Map.empty {A_i}) A_i = Bottom \<and>
   initialize_ifields ex_ext ex_scope Map.empty {} A_vol = None \<and>
   initialize_ifields ex_ext ex_scope Map.empty {} A_x = None \<and>
   (\<exists>w. collect ex_ext ex_scope ex_fp_iter {} ex_wps = Some w \<and>
        partition_get (m_field_partition w) A_i = Constant 0)"
proof -
  have a: "A_i \<in> set (walk_fields ex_scope)"
    "\<not> f_is_static A_i \<and> \<not> f_is_external A_i \<and> \<not> f_is_volatile A_i \<and> f_can_delete A_i"
    "f_is_volatile A_vol" "f_is_static A_x"
    by (simp_all add: ex_walk_fields ex_field_defs)
  have seeds: "partition_get (initialize_ifields ex_ext ex_scope Map.empty {}) A_i = Constant 0 \<and>
   partition_get (initialize_ifields ex_ext ex_scope Map.empty {A_i}) A_i = Bottom \<and>
   initialize_ifields ex_ext ex_scope Map.empty {} A_vol = None \<and>
   initialize_ifields ex_ext ex_scope Map.empty {} A_x = None"
    using instance_fields_seeded_before_walk [of ex_scope ex_ext Map.empty "{}"]
      instance_fields_seeded_before_walk [of ex_scope ex_ext Map.empty "{A_i}"] a
    by (simp add: ex_ext_simps bot_FlatConstant_def)
  obtain tmp where
    "collect_methods ex_ext (m_known_fields ex_wps) ex_fp_iter (walk_methods ex_scope) ([], []) =
       Some tmp"
    using collect_methods_succeeds
      [OF ex_operands_present, of ex_ext "m_known_fields ex_wps" ex_fp_iter "([], [])"]
    by auto
  then obtain w where w: "collect ex_ext ex_scope ex_fp_iter {} ex_wps = Some w"
    by (cases tmp) (simp add: collect_def Let_def)
  from instance_fields_seeded_before_walk
    [where scope = ex_scope and ext = ex_ext and fp_iter = ex_fp_iter
       and definitely_assigned_ifields = "{}" and wps = ex_wps] w
  obtain ft mt where
    walk: "collect_methods ex_ext (m_known_fields ex_wps) ex_fp_iter (walk_methods ex_scope)
             ([], []) = Some (ft, mt)"
    and v: "\<forall>f \<in> set (walk_fields ex_scope).
            \<not> f_is_static f \<and> \<not> f_is_external f \<and> \<not> f_is_volatile f \<and> f_can_delete f \<longrightarrow>
            partition_get (m_field_partition w) f =
              fold (\<lambda>v a. sup a v) (recorded ft f)
                (if f \<in> {} then bot else signed_constant_zero ex_ext)"
    by blast
  have "A_i \<notin> m_known_fields ex_wps"
    by (simp add: ex_wps_def ex_field_defs)
  then have "\<forall>m \<in> set (walk_methods ex_scope). \<forall>i \<in> set (method_insns m).
           \<not> (stores_to ex_ext i A_i \<and> A_i \<in> m_known_fields ex_wps \<and>
              \<not> (is_an_sput (opcode i) \<and> Some (f_get_class A_i) = clinit_cls_of m))"
    by simp
  from collect_methods_field_unchanged [OF walk this]
  have "recorded ft A_i = []"
    by (rule recorded_unchanged_from_Nil)
  with v a have "partition_get (m_field_partition w) A_i = Constant 0"
    by (simp add: ex_ext_simps)
  with seeds w show ?thesis by blast
qed

text \<open>
  C7, as amended. \<open>analyze_invoke\<close> either returns false with the environment unchanged,
  or returns true with the result register bound to a value that is not Top. With a null
  state it declines. Without a call graph it declines for every opcode other than
  invoke-direct, invoke-static and invoke-virtual; otherwise it resolves the callee with
  the search kind of the instruction's opcode, declines if that fails or if
  \<open>get_return_value\<close> of the callee is Top, and otherwise binds that value. With a call
  graph it resolves the callee with the search kind of the instruction's opcode, and
  retries with interface-virtual search only when the first attempt fails and that
  kind is virtual; it declines if no method is found, if the method is flagged dynamic
  or if the call-site value read through the call graph is Top, and otherwise binds
  that value.
\<close>

theorem analyze_invoke_behaviour:
  fixes ext :: "'v::bounded_lattice Externals"
  shows
  "(analyze_invoke ext wps insn env = (False, env) \<or>
    (\<exists>v. v \<noteq> top \<and> analyze_invoke ext wps insn env = (True, env_set RESULT_REGISTER v env))) \<and>
   (wps = None \<longrightarrow> analyze_invoke ext wps insn env = (False, env)) \<and>
   (\<forall>w. wps = Some w \<and> \<not> has_call_graph w \<longrightarrow>
      analyze_invoke ext wps insn env =
        (if opcode insn \<notin> {OPCODE_INVOKE_DIRECT, OPCODE_INVOKE_STATIC, OPCODE_INVOKE_VIRTUAL}
         then (False, env)
         else case resolve_method ext (get_method insn) (opcode_to_search ext insn) of
                None \<Rightarrow> (False, env)
              | Some method \<Rightarrow>
                  if get_return_value w method = top then (False, env)
                  else (True, env_set RESULT_REGISTER (get_return_value w method) env))) \<and>
   (\<forall>w. wps = Some w \<and> has_call_graph w \<longrightarrow>
      analyze_invoke ext wps insn env =
        (case (case resolve_method ext (get_method insn) (opcode_to_search ext insn) of
                 Some m \<Rightarrow> Some m
               | None \<Rightarrow> if opcode_to_search ext insn = Virtual
                          then resolve_method ext (get_method insn) InterfaceVirtual
                          else None) of
           None \<Rightarrow> (False, env)
         | Some method \<Rightarrow>
             if method_is_dynamic w method \<or> get_return_value_from_cg w insn = top
             then (False, env)
             else (True, env_set RESULT_REGISTER (get_return_value_from_cg w insn) env)))"
proof -
  have 1: "analyze_invoke ext wps insn env = (False, env) \<or>
    (\<exists>v. v \<noteq> top \<and> analyze_invoke ext wps insn env = (True, env_set RESULT_REGISTER v env))"
    by (auto simp: analyze_invoke_def Let_def split: option.splits)
  have 2: "wps = None \<longrightarrow> analyze_invoke ext wps insn env = (False, env)"
    by (simp add: analyze_invoke_def)
  have 3: "\<forall>w. wps = Some w \<and> \<not> has_call_graph w \<longrightarrow>
      analyze_invoke ext wps insn env =
        (if opcode insn \<notin> {OPCODE_INVOKE_DIRECT, OPCODE_INVOKE_STATIC, OPCODE_INVOKE_VIRTUAL}
         then (False, env)
         else case resolve_method ext (get_method insn) (opcode_to_search ext insn) of
                None \<Rightarrow> (False, env)
              | Some method \<Rightarrow>
                  if get_return_value w method = top then (False, env)
                  else (True, env_set RESULT_REGISTER (get_return_value w method) env))"
    by (simp add: analyze_invoke_def Let_def split: option.splits)
  have 4: "\<forall>w. wps = Some w \<and> has_call_graph w \<longrightarrow>
      analyze_invoke ext wps insn env =
        (case (case resolve_method ext (get_method insn) (opcode_to_search ext insn) of
                 Some m \<Rightarrow> Some m
               | None \<Rightarrow> if opcode_to_search ext insn = Virtual
                          then resolve_method ext (get_method insn) InterfaceVirtual
                          else None) of
           None \<Rightarrow> (False, env)
         | Some method \<Rightarrow>
             if method_is_dynamic w method \<or> get_return_value_from_cg w insn = top
             then (False, env)
             else (True, env_set RESULT_REGISTER (get_return_value_from_cg w insn) env))"
    by (auto simp: analyze_invoke_def Let_def split: option.splits)
  from 1 2 3 4 show ?thesis by blast
qed

theorem analyze_invoke_behaviour_witness:
  "analyze_invoke ex_ext (Some ex_wps) insn_invoke_static_get ex_env =
     (True, env_set RESULT_REGISTER (Constant 42) ex_env) \<and>
   analyze_invoke ex_ext (Some ex_wps) insn_invoke_interface_virt ex_env = (False, ex_env) \<and>
   analyze_invoke ex_ext (Some ex_wps_cg) insn_invoke_virtual_virt ex_env =
     (True, env_set RESULT_REGISTER (Constant 42) ex_env)"
proof -
  have a: "analyze_invoke ex_ext (Some ex_wps) insn_invoke_static_get ex_env =
     (True, env_set RESULT_REGISTER (Constant 42) ex_env)"
    using analyze_invoke_behaviour [of ex_ext "Some ex_wps" insn_invoke_static_get ex_env]
      ex_has_call_graph(2) ex_resolve_static_get
    by (simp add: ex_return_value_A_get top_FlatConstant_def insn_invoke_static_get_def)
  have b: "analyze_invoke ex_ext (Some ex_wps) insn_invoke_interface_virt ex_env = (False, ex_env)"
    using analyze_invoke_behaviour [of ex_ext "Some ex_wps" insn_invoke_interface_virt ex_env]
      ex_has_call_graph(2)
    by (simp add: insn_invoke_interface_virt_def)
  have c: "analyze_invoke ex_ext (Some ex_wps_cg) insn_invoke_virtual_virt ex_env =
     (True, env_set RESULT_REGISTER (Constant 42) ex_env)"
    using analyze_invoke_behaviour [of ex_ext "Some ex_wps_cg" insn_invoke_virtual_virt ex_env]
      ex_has_call_graph(1) ex_resolve_virtual_virt
    by (simp add: ex_cg_value ex_cg_dynamic top_FlatConstant_def)
  from a b c show ?thesis by blast
qed

text \<open>
  The claim as it was stated has the call-graph path resolve "by ordinary virtual
  resolution, falling back to interface-virtual resolution if the first attempt fails".
  Two inputs with a call graph show that the code does neither. For the invoke-static
  of \<open>A.get\<close>, virtual and interface-virtual resolution both fail, yet the hook binds the
  result register: the first attempt uses the opcode's search kind (static).
  For the invoke-interface of \<open>A.virt\<close>, the first attempt fails and interface-virtual
  resolution would find a method that is not dynamic and whose call-site value is not
  Top, yet the hook declines: there is no fallback unless the search kind is virtual.
\<close>

theorem analyze_invoke_virtual_first_counterexample:
  "has_call_graph ex_wps_cg \<and>
   resolve_method ex_ext (get_method insn_invoke_static_get) Virtual = None \<and>
   resolve_method ex_ext (get_method insn_invoke_static_get) InterfaceVirtual = None \<and>
   analyze_invoke ex_ext (Some ex_wps_cg) insn_invoke_static_get ex_env =
     (True, env_set RESULT_REGISTER (Constant 42) ex_env) \<and>
   resolve_method ex_ext (get_method insn_invoke_interface_virt)
     (opcode_to_search ex_ext insn_invoke_interface_virt) = None \<and>
   resolve_method ex_ext (get_method insn_invoke_interface_virt) InterfaceVirtual = Some A_virt \<and>
   method_is_dynamic ex_wps_cg A_virt = False \<and>
   get_return_value_from_cg ex_wps_cg insn_invoke_interface_virt = Constant 42 \<and>
   analyze_invoke ex_ext (Some ex_wps_cg) insn_invoke_interface_virt ex_env = (False, ex_env)"
  by (simp add: ex_has_call_graph ex_cg_value ex_cg_dynamic ex_resolve_interface_virt
      analyze_invoke_def ex_resolve_static_get top_FlatConstant_def)
    (simp add: ex_ext_def insn_invoke_static_get_def)

text \<open>
  C8. \<open>analyze_sget\<close> and \<open>analyze_iget\<close> are both \<open>analyze_gets_helper\<close>. If the pointer to
  the whole-program state is null, or the field resolves and its summary value
  (\<open>get_field_value\<close>) is Top, the helper returns false and the environment it was
  given; if the field resolves and its summary is not Top, it returns true and the
  environment with the result register set to the summary, so that reading the result
  register gives the summary. (An instruction whose field does not resolve has no
  summary; the helper declines it as well.)
\<close>

theorem analyze_gets_behaviour:
  fixes ext :: "'v::bounded_lattice Externals"
  shows
  "analyze_sget ext wps insn env = analyze_gets_helper ext wps insn env \<and>
   analyze_iget ext wps insn env = analyze_gets_helper ext wps insn env \<and>
   (wps = None \<longrightarrow> analyze_gets_helper ext wps insn env = (False, env)) \<and>
   (\<forall>w. wps = Some w \<and> resolve_field ext (get_field insn) = None \<longrightarrow>
      analyze_gets_helper ext wps insn env = (False, env)) \<and>
   (\<forall>w field. wps = Some w \<and> resolve_field ext (get_field insn) = Some field \<and>
      get_field_value w field = top \<longrightarrow>
      analyze_gets_helper ext wps insn env = (False, env)) \<and>
   (\<forall>w field. wps = Some w \<and> resolve_field ext (get_field insn) = Some field \<and>
      get_field_value w field \<noteq> top \<longrightarrow>
      analyze_gets_helper ext wps insn env =
        (True, env_set RESULT_REGISTER (get_field_value w field) env) \<and>
      env_get (snd (analyze_gets_helper ext wps insn env)) RESULT_REGISTER =
        get_field_value w field)"
  by (simp add: analyze_sget_def analyze_iget_def analyze_gets_helper_def env_get_set)

theorem analyze_gets_behaviour_witness:
  "analyze_sget ex_ext (Some ex_wps) insn_sget_x ex_env =
     (True, env_set RESULT_REGISTER (Constant 2) ex_env) \<and>
   analyze_iget ex_ext (Some ex_wps) insn_sget_kept ex_env = (False, ex_env) \<and>
   analyze_sget ex_ext None insn_sget_x ex_env = (False, ex_env)"
proof -
  have rx: "resolve_field ex_ext (get_field insn_sget_x) = Some A_x"
    by (simp add: ex_ext_def insn_sget_x_def)
  have rk: "resolve_field ex_ext (get_field insn_sget_kept) = Some A_kept"
    by (simp add: ex_ext_def insn_sget_kept_def)
  have nt: "get_field_value ex_wps A_x \<noteq> top"
    by (simp add: ex_get_field_value_A_x top_FlatConstant_def)
  have kt: "get_field_value ex_wps A_kept = top"
    by (simp add: ex_get_field_value_A_kept top_FlatConstant_def)
  show ?thesis
    using analyze_gets_behaviour [of ex_ext "Some ex_wps" insn_sget_x ex_env]
      analyze_gets_behaviour [of ex_ext "Some ex_wps" insn_sget_kept ex_env]
      analyze_gets_behaviour [of ex_ext None insn_sget_x ex_env]
      rx rk nt kt
    by (simp add: ex_get_field_value_A_x)
qed

text \<open>
  C9. The reduction step of the collector does not depend on the order of the recorded
  observations: for any key (a field or a method) and any two lists of observations
  that are permutations of each other, the inner loop of the reduction turns the same
  partition into the same partition; the value it leaves for the key is the join of the
  seeded value with all observations; and replacing, anywhere in the temporary map, an
  entry's vector by a permutation of it does not change the result of the whole
  reduction.
\<close>

theorem reduce_order_independent:
  fixes vs vs' :: "'v::bounded_lattice list"
  assumes "mset vs = mset vs'"
  shows "join_values k vs p = join_values k vs' p \<and>
         partition_get (join_values k vs p) k = fold (\<lambda>v a. sup a v) vs' (partition_get p k) \<and>
         reduce (pre @ (k, vs) # post) p = reduce (pre @ (k, vs') # post) p"
proof -
  have a: "join_values k vs p = join_values k vs' p" for p
    using assms by (rule join_values_permute)
  have b: "partition_get (join_values k vs p) k = fold (\<lambda>v a. sup a v) vs' (partition_get p k)"
    by (simp add: partition_get_join_values fold_join_permute [OF assms])
  have c: "reduce (pre @ (k, vs) # post) p = reduce (pre @ (k, vs') # post) p"
    by (simp add: reduce_append a)
  from a b c show ?thesis by blast
qed

theorem reduce_order_independent_witness:
  "join_values ''x'' [Constant 1, Top, Constant 1] Map.empty =
     join_values ''x'' [Top, Constant 1, Constant 1] Map.empty \<and>
   partition_get (join_values ''x'' [Constant 1, Top, Constant 1] Map.empty) ''x'' = Top"
proof -
  have h: "mset [Constant 1, Top, Constant 1] = mset [Top, Constant 1, Constant 1]"
    by simp
  note r = reduce_order_independent [OF h, of "''x''" Map.empty]
  from r have 1: "join_values ''x'' [Constant 1, Top, Constant 1] Map.empty =
     join_values ''x'' [Top, Constant 1, Constant 1] Map.empty"
    by (rule conjunct1)
  from r have 2: "partition_get (join_values ''x'' [Constant 1, Top, Constant 1] Map.empty) ''x'' =
     fold (\<lambda>v a. sup a v) [Top, Constant 1, Constant 1] (partition_get Map.empty ''x'')"
    by blast
  have 3: "fold (\<lambda>v a. sup a v) [Top, Constant 1, Constant 1] (partition_get Map.empty ''x'') = Top"
    by (simp add: partition_get_empty bot_FlatConstant_def)
  show ?thesis
  proof (intro conjI)
    show "join_values ''x'' [Constant 1, Top, Constant 1] Map.empty =
      join_values ''x'' [Top, Constant 1, Constant 1] Map.empty" by (rule 1)
    show "partition_get (join_values ''x'' [Constant 1, Top, Constant 1] Map.empty) ''x'' = Top"
      by (simp only: 2 3)
  qed
qed

text \<open>
  C10. \<open>collect_instance_finals\<close> aborts on an external class (the assertion). For a class
  that is not external and has more than one constructor it returns, every instance
  field of the class is bound to Top in the field partition, and the known-field set is
  unchanged. For a class that is not external and has at most one constructor, whenever
  it returns, the known-field set has grown by exactly the instance fields of the class
  that are in the eligible set and whose declaring class is not in the field blocklist,
  and every other instance field of the class is bound to Top; it aborts exactly when
  one of the added fields has a value other than Top in the given environment and a
  declaring class other than the class passed (the assertion of
  \<open>set_fields_in_partition\<close>).
\<close>

theorem collect_instance_finals_behaviour:
  fixes wps :: "'v::bounded_lattice WholeProgramState"
  shows
  "(is_external cls \<longrightarrow> collect_instance_finals cls eligible_ifields field_env wps = None) \<and>
   (\<not> is_external cls \<and> length (get_ctors cls) > 1 \<longrightarrow>
      (\<exists>wps'. collect_instance_finals cls eligible_ifields field_env wps = Some wps' \<and>
         m_known_fields wps' = m_known_fields wps \<and>
         (\<forall>f \<in> set (get_ifields cls). partition_get (m_field_partition wps') f = top))) \<and>
   (\<not> is_external cls \<and> length (get_ctors cls) \<le> 1 \<longrightarrow>
      (\<forall>wps'. collect_instance_finals cls eligible_ifields field_env wps = Some wps' \<longrightarrow>
         m_known_fields wps' =
           m_known_fields wps \<union>
           {f \<in> set (get_ifields cls).
              f \<in> eligible_ifields \<and> f_get_class f \<notin> m_field_blocklist wps} \<and>
         (\<forall>f \<in> set (get_ifields cls).
            \<not> (f \<in> eligible_ifields \<and> f_get_class f \<notin> m_field_blocklist wps) \<longrightarrow>
            partition_get (m_field_partition wps') f = top)) \<and>
      (collect_instance_finals cls eligible_ifields field_env wps = None \<longleftrightarrow>
         (\<exists>f \<in> set (get_ifields cls).
            f \<in> eligible_ifields \<and> f_get_class f \<notin> m_field_blocklist wps \<and>
            field_env f \<noteq> top \<and> f_get_class f \<noteq> get_type cls)))"
proof -
  let ?cif = "collect_instance_finals cls eligible_ifields field_env wps"
  let ?added = "{f \<in> set (get_ifields cls).
                  f \<in> eligible_ifields \<and> f_get_class f \<notin> m_field_blocklist wps}"
  have external: "is_external cls \<longrightarrow> ?cif = None"
    by (simp add: collect_instance_finals_def)
  have many: "\<exists>wps'. ?cif = Some wps' \<and> m_known_fields wps' = m_known_fields wps \<and>
         (\<forall>f \<in> set (get_ifields cls). partition_get (m_field_partition wps') f = top)"
    if a: "\<not> is_external cls \<and> length (get_ctors cls) > 1"
  proof -
    let ?fe = "fold (\<lambda>field e. e(field := top)) (get_ifields cls) field_env"
    have "set_fields_loop cls ?fe (get_ifields cls) (m_field_partition wps) \<noteq> None"
      by (simp add: set_fields_loop_aborts fold_set_top)
    then obtain p
      where p: "set_fields_loop cls ?fe (get_ifields cls) (m_field_partition wps) = Some p"
      by auto
    have "\<forall>f \<in> set (get_ifields cls). partition_get p f = top"
      using set_fields_loop_get [OF p] by (simp add: fold_set_top)
    with a p show ?thesis
      by (simp add: collect_instance_finals_def set_fields_in_partition_def)
  qed
  let ?r = "instance_finals_loop eligible_ifields (m_field_blocklist wps) (get_ifields cls)
              (m_known_fields wps, field_env)"
  let ?loop = "set_fields_loop cls (snd ?r) (get_ifields cls) (m_field_partition wps)"
  have unf: "?cif =
     (case ?loop of
        None \<Rightarrow> None
      | Some p \<Rightarrow> Some (wps\<lparr>m_known_fields := fst ?r, m_field_partition := p\<rparr>))"
    if "\<not> is_external cls \<and> length (get_ctors cls) \<le> 1"
    using that by (simp add: collect_instance_finals_def set_fields_in_partition_def
        case_prod_beta)
  have few_result: "m_known_fields wps' = m_known_fields wps \<union> ?added \<and>
         (\<forall>f \<in> set (get_ifields cls).
            \<not> (f \<in> eligible_ifields \<and> f_get_class f \<notin> m_field_blocklist wps) \<longrightarrow>
            partition_get (m_field_partition wps') f = top)"
    if a: "\<not> is_external cls \<and> length (get_ctors cls) \<le> 1" and s: "?cif = Some wps'"
    for wps'
  proof -
    from s obtain p where p: "?loop = Some p"
      and w: "wps' = wps\<lparr>m_known_fields := fst ?r, m_field_partition := p\<rparr>"
      by (auto simp: unf [OF a] split: option.splits)
    have k: "m_known_fields wps' = m_known_fields wps \<union> ?added"
      by (simp add: w instance_finals_loop_known)
    have t: "\<forall>f \<in> set (get_ifields cls).
            \<not> (f \<in> eligible_ifields \<and> f_get_class f \<notin> m_field_blocklist wps) \<longrightarrow>
            partition_get (m_field_partition wps') f = top"
      using set_fields_loop_get [OF p] by (simp add: w instance_finals_loop_env)
    from k t show ?thesis by blast
  qed
  have few_abort: "?cif = None \<longleftrightarrow>
         (\<exists>f \<in> set (get_ifields cls).
            f \<in> eligible_ifields \<and> f_get_class f \<notin> m_field_blocklist wps \<and>
            field_env f \<noteq> top \<and> f_get_class f \<noteq> get_type cls)"
    if a: "\<not> is_external cls \<and> length (get_ctors cls) \<le> 1"
  proof -
    have "?loop = None \<longleftrightarrow>
         (\<exists>f \<in> set (get_ifields cls).
            f \<in> eligible_ifields \<and> f_get_class f \<notin> m_field_blocklist wps \<and>
            field_env f \<noteq> top \<and> f_get_class f \<noteq> get_type cls)"
      unfolding set_fields_loop_aborts by (auto simp: instance_finals_loop_env)
    then show ?thesis
      unfolding unf [OF a] by (cases ?loop) simp_all
  qed
  from external many few_result few_abort show ?thesis by blast
qed

theorem collect_instance_finals_behaviour_witness:
  "collect_instance_finals class_A {A_i} (\<lambda>f. Constant 7) ex_wps \<noteq> None \<and>
   A_i \<in> m_known_fields (the (collect_instance_finals class_A {A_i} (\<lambda>f. Constant 7) ex_wps)) \<and>
   A_vol \<notin> m_known_fields (the (collect_instance_finals class_A {A_i} (\<lambda>f. Constant 7) ex_wps)) \<and>
   partition_get
     (m_field_partition (the (collect_instance_finals class_A {A_i} (\<lambda>f. Constant 7) ex_wps)))
     A_vol = Top \<and>
   (\<exists>w. collect_instance_finals (class_A\<lparr>get_ctors := [A_init, A_init]\<rparr>) {A_i}
          (\<lambda>f. Constant 7) ex_wps = Some w \<and>
        m_known_fields w = m_known_fields ex_wps \<and>
        partition_get (m_field_partition w) A_i = Top) \<and>
   collect_instance_finals (class_A\<lparr>is_external := True\<rparr>) {A_i} (\<lambda>f. Constant 7) ex_wps = None"
proof -
  have ext: "collect_instance_finals (class_A\<lparr>is_external := True\<rparr>) {A_i} (\<lambda>f. Constant 7)
      ex_wps = None"
    using collect_instance_finals_behaviour
      [of "class_A\<lparr>is_external := True\<rparr>" "{A_i}" "\<lambda>f. Constant 7" ex_wps]
    by simp
  let ?cif = "collect_instance_finals class_A {A_i} (\<lambda>f. Constant 7) ex_wps"
  note one = collect_instance_finals_behaviour [of class_A "{A_i}" "\<lambda>f. Constant 7" ex_wps]
  note two = collect_instance_finals_behaviour
    [of "class_A\<lparr>get_ctors := [A_init, A_init]\<rparr>" "{A_i}" "\<lambda>f. Constant 7" ex_wps]
  have pre: "\<not> is_external class_A \<and> length (get_ctors class_A) \<le> 1"
    by (simp add: class_A_def)
  have ifields: "get_ifields class_A = [A_i, A_vol]" "get_type class_A = ''LA;''"
    "f_get_class A_i = ''LA;''" "f_get_class A_vol = ''LA;''" "A_vol \<noteq> A_i"
    "m_field_blocklist ex_wps = {}" "m_known_fields ex_wps = {A_x}" "A_vol \<noteq> A_x"
    by (simp_all add: class_A_def A_i_def A_vol_def ex_wps_def A_x_def)
  from one pre have "?cif \<noteq> None"
    by (simp add: ifields)
  then obtain w where w: "?cif = Some w" by auto
  from one pre w have k: "m_known_fields w = m_known_fields ex_wps \<union>
      {f \<in> set (get_ifields class_A). f \<in> {A_i} \<and> f_get_class f \<notin> m_field_blocklist ex_wps}"
    and t: "\<forall>f \<in> set (get_ifields class_A).
       \<not> (f \<in> {A_i} \<and> f_get_class f \<notin> m_field_blocklist ex_wps) \<longrightarrow>
       partition_get (m_field_partition w) f = top"
    by blast+
  from k have k1: "A_i \<in> m_known_fields w" and k2: "A_vol \<notin> m_known_fields w"
    by (simp_all add: ifields)
  from t have t1: "partition_get (m_field_partition w) A_vol = Top"
    by (simp add: ifields top_FlatConstant_def)
  have pre2: "\<not> is_external (class_A\<lparr>get_ctors := [A_init, A_init]\<rparr>) \<and>
     length (get_ctors (class_A\<lparr>get_ctors := [A_init, A_init]\<rparr>)) > 1"
    by (simp add: class_A_def)
  from two pre2 have "\<exists>w. collect_instance_finals (class_A\<lparr>get_ctors := [A_init, A_init]\<rparr>) {A_i}
          (\<lambda>f. Constant 7) ex_wps = Some w \<and>
        m_known_fields w = m_known_fields ex_wps \<and>
        partition_get (m_field_partition w) A_i = Top"
    by (auto simp: ifields top_FlatConstant_def)
  with w k1 k2 t1 ext show ?thesis by simp
qed

end
